theory Spec2Isabelle
  imports
    Main
    "HOL-Library.Char_ord"
    "HOL-Library.List_Lexorder"
    "HOL-Library.Sublist"
    "HOL-Library.AList"
    "HOL-Library.Multiset"
begin

section \<open>Python values, exceptions and string operations\<close>

text \<open>
  The program is \<^verbatim>\<open>deed_finder.py\<close>: it drives a browser to a record of the Plymouth County
  Registry of Deeds, downloads one image per page into a temporary directory, and combines
  the images into one PDF. Strings are \<^typ>\<open>string\<close> (lists of characters), compared as
  Python compares \<^verbatim>\<open>str\<close>: character by character (\<open>List_Lexorder\<close> over \<open>Char_ord\<close>).
  Python's unbounded \<^verbatim>\<open>int\<close> is \<^typ>\<open>int\<close>.
\<close>

type_synonym bytes = string

datatype exn_kind =
    ElementDoesNotExist
  | WebDriverException
  | ValueError
  | ConnectionError
  | OSError
  | RuntimeError

text \<open>An exception object: its class and its message (\<^verbatim>\<open>str(ex)\<close>).\<close>

datatype exn = Exn exn_kind string

fun str_exn :: "exn \<Rightarrow> string" where
  "str_exn (Exn k msg) = msg"

text \<open>What a Python function hands back: \<^verbatim>\<open>None\<close> or a string.\<close>

datatype pyval = PyNone | PyStr string

definition digit_char :: "nat \<Rightarrow> char" where
  "digit_char d = ''0123456789'' ! d"

fun digits :: "nat \<Rightarrow> string" where
  "digits n = (if n < 10 then [digit_char n] else digits (n div 10) @ [digit_char (n mod 10)])"

declare digits.simps [simp del]

text \<open>\<^verbatim>\<open>'{}'.format(n)\<close> for an integer \<open>n\<close>.\<close>

definition str_int :: "int \<Rightarrow> string" where
  "str_int n = (if n < 0 then CHR ''-'' # digits (nat (- n)) else digits (nat n))"

definition zfill :: "nat \<Rightarrow> string \<Rightarrow> string" where
  "zfill width s = replicate (width - length s) CHR ''0'' @ s"

text \<open>
  \<^verbatim>\<open>'{:0Wd}'.format(n)\<close>: zero padding to the field width \<open>W\<close>; the sign, when there is
  one, is counted in the width and stands before the zeros. A number with more digits than
  the width is written in full.
\<close>

definition format_0d :: "nat \<Rightarrow> int \<Rightarrow> string" where
  "format_0d width n =
     (if n < 0 then CHR ''-'' # zfill (width - 1) (digits (nat (- n)))
      else zfill width (digits (nat n)))"

text \<open>\<^verbatim>\<open>os.path.join(a, b)\<close> of \<^verbatim>\<open>posixpath\<close>, for two arguments.\<close>

definition os_path_join :: "string \<Rightarrow> string \<Rightarrow> string" where
  "os_path_join a b =
     (if prefix ''/'' b then b
      else if a = [] \<or> suffix ''/'' a then a @ b
      else a @ ''/'' @ b)"

text \<open>
  \<^verbatim>\<open>s.replace(old, new)\<close>: every occurrence of \<open>old\<close>, found from the left and without
  overlap, is replaced. An empty \<open>old\<close> matches before every character and at the end.
\<close>

function py_replace :: "string \<Rightarrow> string \<Rightarrow> string \<Rightarrow> string" where
  "py_replace old new [] = (if old = [] then new else [])"
| "py_replace old new (c # cs) =
     (if old = [] then new @ concat (map (\<lambda>x. x # new) (c # cs))
      else if prefix old (c # cs) then new @ py_replace old new (drop (length old) (c # cs))
      else c # py_replace old new cs)"
  by pat_completeness auto
termination
  by (relation "measure (\<lambda>(old, new, s). length s)") auto

declare py_replace.simps [simp del]

text \<open>\<^verbatim>\<open>s.split(sep)\<close> for a one-character separator: never an empty list.\<close>

fun py_split :: "char \<Rightarrow> string \<Rightarrow> string list" where
  "py_split sep [] = [[]]"
| "py_split sep (c # cs) =
     (if c = sep then [] # py_split sep cs
      else (case py_split sep cs of
              [] \<Rightarrow> [[c]]
            | part # parts \<Rightarrow> (c # part) # parts))"

definition is_space :: "char \<Rightarrow> bool" where
  "is_space c = (c \<in> set [CHR '' '', CHR 0x09, CHR 0x0A, CHR 0x0B, CHR 0x0C, CHR 0x0D])"

definition py_strip :: "string \<Rightarrow> string" where
  "py_strip s = rev (dropWhile is_space (rev (dropWhile is_space s)))"

definition is_digit :: "char \<Rightarrow> bool" where
  "is_digit c = (c \<in> set ''0123456789'')"

definition digit_value :: "char \<Rightarrow> nat" where
  "digit_value c = of_char c - 48"

definition digits_value :: "string \<Rightarrow> nat" where
  "digits_value s = foldl (\<lambda>acc c. 10 * acc + digit_value c) 0 s"

text \<open>Decimal digits, with single underscores allowed between two digits.\<close>

fun int_literal :: "string \<Rightarrow> bool" where
  "int_literal [] = False"
| "int_literal [c] = is_digit c"
| "int_literal (c # d # cs) =
     (is_digit c \<and> (if d = CHR ''_'' then int_literal cs else int_literal (d # cs)))"

text \<open>
  \<^verbatim>\<open>int(s)\<close> for ASCII text: surrounding white space is ignored, one sign is allowed, and
  anything else raises \<^verbatim>\<open>ValueError\<close>.
\<close>

definition py_int :: "string \<Rightarrow> exn + int" where
  "py_int s =
     (let t = py_strip s;
          body = (if prefix ''-'' t \<or> prefix ''+'' t then tl t else t);
          magnitude = int (digits_value (filter (\<lambda>c. c \<noteq> CHR ''_'') body))
      in if int_literal body
         then Inr (if prefix ''-'' t then - magnitude else magnitude)
         else Inl (Exn ValueError (''invalid literal for int() with base 10: '' @ s)))"

text \<open>The part of a path up to and with its last slash, and the part after it.\<close>

definition dir_part :: "string \<Rightarrow> string" where
  "dir_part p = rev (dropWhile (\<lambda>c. c \<noteq> CHR ''/'') (rev p))"

definition base_part :: "string \<Rightarrow> string" where
  "base_part p = rev (takeWhile (\<lambda>c. c \<noteq> CHR ''/'') (rev p))"

text \<open>
  \<^verbatim>\<open>fnmatch\<close> for the patterns the program uses: a literal name, or \<^verbatim>\<open>*\<close> followed by a
  literal. The star of \<^verbatim>\<open>glob\<close> does not match a name that starts with a dot.
\<close>

definition fnmatch :: "string \<Rightarrow> string \<Rightarrow> bool" where
  "fnmatch pat name =
     (case pat of
        [] \<Rightarrow> name = []
      | c # lit \<Rightarrow>
          if c = CHR ''*'' then suffix lit name \<and> \<not> prefix ''.'' name
          else name = pat)"

definition glob_match :: "string \<Rightarrow> string \<Rightarrow> bool" where
  "glob_match pattern p =
     (dir_part p = dir_part pattern \<and> fnmatch (base_part pattern) (base_part p))"

section \<open>The world outside the program\<close>

text \<open>
  Everything the program talks to (the browser and the remote site behind it, the HTTP
  session, the file system, the PDF library) is outside the repository. The model keeps the
  part of their state the program depends on in a record \<open>world\<close>, and what they answer in a
  record \<open>env\<close> that the program cannot change.

  Every call to one of them is an \<open>event\<close>. A call may raise: \<open>faults env k\<close> is the
  exception raised by the \<open>k\<close>-th call made since the start (\<open>None\<close>: the call goes
  through). A call that raises has no other effect, except the call that writes the
  document, which may have created the file before it raises. \<open>trace\<close> lists, in order, the
  calls that went through and the lines printed.
\<close>

datatype event =
    Print string
  | MkTemp string
  | RmTemp string
  | BrowserNew string
  | Visit string
  | MouseOver string
  | Click string
  | Fill string int
  | SwitchWindow
  | GetCookies
  | ReadValue string
  | ReadSrc string
  | HttpGet string
  | FileWrite string
  | Glob string
  | PdfAddPage
  | PdfImage string
  | FileRemove string
  | PdfOutput string

text \<open>
  A PDF document under construction (the \<^verbatim>\<open>FPDF\<close> object): its pages in order, each page
  the images placed on it, an image being the file name it was read from and the bytes read.
\<close>

type_synonym pdf_page = "(string \<times> bytes) list"
type_synonym pdf = "pdf_page list"

type_synonym session = "(string \<times> string) list"

record world =
  clock :: nat
  trace :: "event list"
  browsers :: nat
  viewer_page :: int
  tmp_dir :: "string option"
  tmp_files :: "(string \<times> bytes) list"
  outputs :: "(string \<times> pdf) list"
  partial_files :: "string list"

text \<open>
  \<^item> \<open>browsers\<close>: how many browser processes the program has started and not closed;
  \<^item> \<open>viewer_page\<close>: the page the image viewer of the current browser displays;
  \<^item> \<open>tmp_dir\<close>, \<open>tmp_files\<close>: the temporary directory that exists, if one does, and the
    files in it (full path and content);
  \<^item> \<open>outputs\<close>: the PDF files written so far, oldest first;
  \<^item> \<open>partial_files\<close>: the paths at which a file was created by a call that raised before
    the document was written to it, oldest first.
\<close>

record env =
  faults :: "nat \<Rightarrow> exn option"
  base_path :: string
  tmp_name :: "nat \<Rightarrow> string"
  cookies :: session
  element_value :: "string \<Rightarrow> int \<Rightarrow> string"
  element_src :: "string \<Rightarrow> int \<Rightarrow> string"
  http_body :: "session \<Rightarrow> string \<Rightarrow> bytes"
  dir_rank :: "string \<Rightarrow> nat"
  torn :: "nat \<Rightarrow> bool"

text \<open>
  \<^item> \<open>base_path\<close>: the directory of the script (or of the frozen application);
  \<^item> \<open>tmp_name k\<close>: the path \<^verbatim>\<open>tempfile\<close> chooses for a directory made by call \<open>k\<close>;
  \<^item> \<open>element_value i p\<close>, \<open>element_src i p\<close>: the text and the \<^verbatim>\<open>src\<close> attribute of the
    element with id \<open>i\<close> while the viewer displays page \<open>p\<close>;
  \<^item> \<open>http_body s u\<close>: the body of the response to a GET of \<open>u\<close> with the cookies \<open>s\<close>;
  \<^item> \<open>dir_rank\<close>: the order in which the file system enumerates a directory (by rising
    rank), which the program does not control;
  \<^item> \<open>torn k\<close>: if call \<open>k\<close> writes the document and raises, whether it raises after it has
    created the file (the disk is full, say) or before (the directory cannot be written to).
\<close>

type_synonym 'a prog = "world \<Rightarrow> (exn + 'a) \<times> world"

definition return :: "'a \<Rightarrow> 'a prog" where
  "return x w = (Inr x, w)"

definition throw :: "exn \<Rightarrow> 'a prog" where
  "throw e w = (Inl e, w)"

definition bind :: "'a prog \<Rightarrow> ('a \<Rightarrow> 'b prog) \<Rightarrow> 'b prog" where
  "bind m f w = (case m w of (Inl e, w1) \<Rightarrow> (Inl e, w1) | (Inr x, w1) \<Rightarrow> f x w1)"

text \<open>\<^verbatim>\<open>try: m  except Exception as ex: handler(ex)\<close>\<close>

definition try_except :: "'a prog \<Rightarrow> (exn \<Rightarrow> 'a prog) \<Rightarrow> 'a prog" where
  "try_except m handler w =
     (case m w of (Inl ex, w1) \<Rightarrow> handler ex w1 | (Inr x, w1) \<Rightarrow> (Inr x, w1))"

definition gets :: "(world \<Rightarrow> 'a) \<Rightarrow> 'a prog" where
  "gets f w = (Inr (f w), w)"

definition modify :: "(world \<Rightarrow> world) \<Rightarrow> unit prog" where
  "modify f w = (Inr (), f w)"

definition step :: "env \<Rightarrow> event \<Rightarrow> unit prog" where
  "step env ev w =
     (case faults env (clock w) of
        Some e \<Rightarrow> (Inl e, w\<lparr>clock := Suc (clock w)\<rparr>)
      | None \<Rightarrow> (Inr (), w\<lparr>clock := Suc (clock w), trace := trace w @ [ev]\<rparr>))"

definition py_print :: "string \<Rightarrow> unit prog" where
  "py_print s = modify (\<lambda>w. w\<lparr>trace := trace w @ [Print s]\<rparr>)"

text \<open>Time is not modelled: \<^verbatim>\<open>sleep\<close> (its argument in milliseconds) does nothing.\<close>

definition sleep :: "nat \<Rightarrow> unit prog" where
  "sleep ms = return ()"

section \<open>The program\<close>

definition DEFAULT_SLEEP_TIME :: nat where
  "DEFAULT_SLEEP_TIME = 500"

definition MAX_RETRIES :: int where
  "MAX_RETRIES = 2"

subsection \<open>Calls to the browser, the HTTP session, the file system and the PDF library\<close>

text \<open>
  What the remote site does on a click, as far as the program depends on it: the tab of the
  image viewer opens the viewer on the first page of the record, and the viewer's button
  for the next page moves it one page on.
\<close>

definition on_click :: "string \<Rightarrow> world \<Rightarrow> world" where
  "on_click elem_id w =
     (if elem_id = ''ImageViewer1_BtnNext'' then w\<lparr>viewer_page := viewer_page w + 1\<rparr>
      else if elem_id = ''TabController1_ImageViewertabitem'' then w\<lparr>viewer_page := 1\<rparr>
      else w)"

text \<open>\<^verbatim>\<open>Browser('chrome', executable_path=driver, headless=True)\<close>\<close>

definition browser_new :: "env \<Rightarrow> string \<Rightarrow> unit prog" where
  "browser_new env driver =
     bind (step env (BrowserNew driver)) (\<lambda>_.
     modify (\<lambda>w. w\<lparr>browsers := Suc (browsers w), viewer_page := 0\<rparr>))"

definition visit :: "env \<Rightarrow> string \<Rightarrow> unit prog" where
  "visit env url = step env (Visit url)"

text \<open>\<^verbatim>\<open>browser.find_by_id(elem_id).first.mouse_over()\<close>\<close>

definition mouse_over :: "env \<Rightarrow> string \<Rightarrow> unit prog" where
  "mouse_over env elem_id = step env (MouseOver elem_id)"

text \<open>\<^verbatim>\<open>browser.find_by_id(elem_id).first.click()\<close>\<close>

definition click :: "env \<Rightarrow> string \<Rightarrow> unit prog" where
  "click env elem_id = bind (step env (Click elem_id)) (\<lambda>_. modify (on_click elem_id))"

definition fill :: "env \<Rightarrow> string \<Rightarrow> int \<Rightarrow> unit prog" where
  "fill env name v = step env (Fill name v)"

text \<open>\<^verbatim>\<open>browser.windows.current = browser.windows.current.next\<close>\<close>

definition switch_window :: "env \<Rightarrow> unit prog" where
  "switch_window env = step env SwitchWindow"

text \<open>\<^verbatim>\<open>browser.find_by_id(elem_id).first.value\<close>\<close>

definition read_value :: "env \<Rightarrow> string \<Rightarrow> string prog" where
  "read_value env elem_id =
     bind (step env (ReadValue elem_id)) (\<lambda>_.
     gets (\<lambda>w. element_value env elem_id (viewer_page w)))"

text \<open>\<^verbatim>\<open>browser.find_by_id(elem_id)[0]['src']\<close>\<close>

definition read_src :: "env \<Rightarrow> string \<Rightarrow> string prog" where
  "read_src env elem_id =
     bind (step env (ReadSrc elem_id)) (\<lambda>_.
     gets (\<lambda>w. element_src env elem_id (viewer_page w)))"

text \<open>\<^verbatim>\<open>session.get(url).content\<close>\<close>

definition http_get :: "env \<Rightarrow> session \<Rightarrow> string \<Rightarrow> bytes prog" where
  "http_get env session url =
     bind (step env (HttpGet url)) (\<lambda>_. return (http_body env session url))"

text \<open>
  \<^verbatim>\<open>with open(file_path, 'wb') as out_file: out_file.write(content)\<close>. The only directory
  the model knows is the temporary one; a path whose directory is not that one raises
  \<^verbatim>\<open>FileNotFoundError\<close>, an \<^verbatim>\<open>OSError\<close>. A file that exists is overwritten.
\<close>

definition write_file :: "env \<Rightarrow> string \<Rightarrow> bytes \<Rightarrow> unit prog" where
  "write_file env path content =
     bind (step env (FileWrite path)) (\<lambda>_.
     bind (gets tmp_dir) (\<lambda>d.
       if d \<noteq> None \<and> dir_part path = the d @ ''/'' \<and> base_part path \<noteq> []
       then modify (\<lambda>w. w\<lparr>tmp_files := AList.update path content (tmp_files w)\<rparr>)
       else throw (Exn OSError (''No such file or directory: '' @ path))))"

text \<open>
  \<^verbatim>\<open>glob(pattern)\<close>: the files that match, in the order the file system enumerates them.
\<close>

definition glob :: "env \<Rightarrow> string \<Rightarrow> string list prog" where
  "glob env pattern =
     bind (step env (Glob pattern)) (\<lambda>_.
     gets (\<lambda>w. filter (glob_match pattern) (sort_key (dir_rank env) (map fst (tmp_files w)))))"

text \<open>\<^verbatim>\<open>os.remove(path)\<close>\<close>

definition os_remove :: "env \<Rightarrow> string \<Rightarrow> unit prog" where
  "os_remove env path =
     bind (step env (FileRemove path)) (\<lambda>_.
     bind (gets tmp_files) (\<lambda>fs.
       if map_of fs path \<noteq> None
       then modify (\<lambda>w. w\<lparr>tmp_files := AList.delete path (tmp_files w)\<rparr>)
       else throw (Exn OSError (''No such file or directory: '' @ path))))"

text \<open>\<^verbatim>\<open>pdf.add_page()\<close>: a new, empty page becomes the current one.\<close>

definition pdf_add_page :: "env \<Rightarrow> pdf \<Rightarrow> pdf prog" where
  "pdf_add_page env pdf = bind (step env PdfAddPage) (\<lambda>_. return (pdf @ [[]]))"

text \<open>
  \<^verbatim>\<open>pdf.image(name, 0, 0, 8.5, 11)\<close>: the file is read when the call is made, and the image
  is placed on the current page.
\<close>

definition pdf_image :: "env \<Rightarrow> pdf \<Rightarrow> string \<Rightarrow> pdf prog" where
  "pdf_image env pdf name =
     bind (step env (PdfImage name)) (\<lambda>_.
     bind (gets tmp_files) (\<lambda>fs.
       case map_of fs name of
         None \<Rightarrow> throw (Exn RuntimeError (''FPDF error: Missing or incorrect image file: '' @ name))
       | Some content \<Rightarrow>
           if pdf = [] then throw (Exn RuntimeError ''FPDF error: No page open'')
           else return (butlast pdf @ [last pdf @ [(name, content)]])))"

text \<open>
  \<^verbatim>\<open>pdf.output(output_path, "F")\<close>: the document is closed and written as one file. Closing a
  document to which no page has been added adds one empty page first (\<^verbatim>\<open>FPDF.close\<close> calls
  \<^verbatim>\<open>add_page\<close> when the page count is 0), so that a written document has a page.

  The library opens the file for writing (\<^verbatim>\<open>open(name, 'wb')\<close>) and then writes the document
  to it. A call that raises has either not created the file, or has created it and left it
  without the document.
\<close>

definition pdf_close :: "pdf \<Rightarrow> pdf" where
  "pdf_close pdf = (if pdf = [] then pdf @ [[]] else pdf)"

definition pdf_output :: "env \<Rightarrow> pdf \<Rightarrow> string \<Rightarrow> unit prog" where
  "pdf_output env pdf output_path w =
     (case faults env (clock w) of
        None \<Rightarrow>
          (Inr (), w\<lparr>clock := Suc (clock w), trace := trace w @ [PdfOutput output_path],
                      outputs := outputs w @ [(output_path, pdf_close pdf)]\<rparr>)
      | Some e \<Rightarrow>
          (Inl e, w\<lparr>clock := Suc (clock w),
                     partial_files := partial_files w @
                       (if torn env (clock w) then [output_path] else [])\<rparr>))"

text \<open>
  \<^verbatim>\<open>with tempfile.TemporaryDirectory() as d: body(d)\<close>: a new, empty directory is made; when
  the body is left, by its end or by an exception, the directory and the files in it are
  removed, and then the body's result or exception goes on.
\<close>

definition mkdtemp :: "env \<Rightarrow> string prog" where
  "mkdtemp env =
     bind (gets clock) (\<lambda>k.
     bind (step env (MkTemp (tmp_name env k))) (\<lambda>_.
     bind (modify (\<lambda>w. w\<lparr>tmp_dir := Some (tmp_name env k), tmp_files := []\<rparr>)) (\<lambda>_.
     return (tmp_name env k))))"

definition cleanup :: "string \<Rightarrow> world \<Rightarrow> world" where
  "cleanup d w = w\<lparr>trace := trace w @ [RmTemp d], tmp_dir := None, tmp_files := []\<rparr>"

definition with_temporary_directory :: "env \<Rightarrow> (string \<Rightarrow> 'a prog) \<Rightarrow> 'a prog" where
  "with_temporary_directory env body w =
     (case mkdtemp env w of
        (Inl e, w1) \<Rightarrow> (Inl e, w1)
      | (Inr d, w1) \<Rightarrow> (case body d w1 of (r, w2) \<Rightarrow> (r, cleanup d w2)))"

subsection \<open>The functions of \<^verbatim>\<open>deed_finder.py\<close>\<close>

definition resource_path :: "env \<Rightarrow> string \<Rightarrow> string" where
  "resource_path env relative_path = os_path_join (base_path env) relative_path"

definition go_to_search_page :: "env \<Rightarrow> int \<Rightarrow> unit prog" where
  "go_to_search_page env book =
     (let menu_id = ''Navigator1_SearchCriteria1_menuLabel'';
          search_button_id =
            (if book < 2393 then ''Navigator1_SearchCriteria1_LinkButton02''
             else ''Navigator1_SearchCriteria1_LinkButton01'')
      in bind (sleep DEFAULT_SLEEP_TIME) (\<lambda>_.
         bind (mouse_over env menu_id) (\<lambda>_.
         click env search_button_id)))"

definition fill_in_search_terms :: "env \<Rightarrow> int \<Rightarrow> int \<Rightarrow> unit prog" where
  "fill_in_search_terms env book page =
     (let book_input_name = ''SearchFormEx1$ACSTextBox_Book'';
          page_input_name = ''SearchFormEx1$ACSTextBox_PageNumber'';
          search_button_id = ''SearchFormEx1_btnSearch''
      in bind (fill env book_input_name book) (\<lambda>_.
         bind (fill env page_input_name page) (\<lambda>_.
         click env search_button_id)))"

definition select_document :: "env \<Rightarrow> unit prog" where
  "select_document env =
     (let book_link_id = ''DocList1_GridView_Document_ctl02_ButtonRow_Book_0'';
          view_image_id = ''TabController1_ImageViewertabitem''
      in bind (click env book_link_id) (\<lambda>_.
         bind (sleep DEFAULT_SLEEP_TIME) (\<lambda>_.
         bind (click env view_image_id) (\<lambda>_.
         bind (sleep 2000) (\<lambda>_.
         switch_window env)))))"

definition create_session :: "env \<Rightarrow> session prog" where
  "create_session env = bind (step env GetCookies) (\<lambda>_. return (cookies env))"

definition get_number_of_pages :: "env \<Rightarrow> int prog" where
  "get_number_of_pages env =
     (let page_number_id = ''ImageViewer1_lblPageNum''
      in bind (read_value env page_number_id) (\<lambda>page_range.
         case py_int (last (py_split CHR '' '' page_range)) of
           Inl e \<Rightarrow> throw e
         | Inr num_pages \<Rightarrow> return num_pages))"

definition get_page_url :: "env \<Rightarrow> string prog" where
  "get_page_url env =
     (let image_id = ''ImageViewer1_docImage''
      in bind (sleep 2000) (\<lambda>_.
         bind (read_src env image_id) (\<lambda>image_url.
         return (py_replace ''ZOOM=1'' ''ZOOM=6'' image_url))))"

text \<open>Where \<^verbatim>\<open>_download_image\<close> saves an image: \<^verbatim>\<open>os.path.join(directory, '{}.jpg'.format(img_name))\<close>.\<close>

definition file_path :: "string \<Rightarrow> string \<Rightarrow> string" where
  "file_path directory img_name = os_path_join directory (img_name @ ''.jpg'')"

definition download_image ::
    "env \<Rightarrow> session \<Rightarrow> string \<Rightarrow> string \<Rightarrow> string \<Rightarrow> int \<times> int \<Rightarrow> unit prog" where
  "download_image env session image_url directory img_name img_range =
     bind (http_get env session image_url) (\<lambda>content.
     bind (write_file env (file_path directory img_name) content) (\<lambda>_.
     py_print (''Downloaded page '' @ str_int (fst img_range) @ '' of ''
               @ str_int (snd img_range))))"

definition go_to_next_page :: "env \<Rightarrow> unit prog" where
  "go_to_next_page env =
     (let next_page_button_id = ''ImageViewer1_BtnNext''
      in bind (click env next_page_button_id) (\<lambda>_. sleep DEFAULT_SLEEP_TIME))"

text \<open>The loop \<^verbatim>\<open>for image in images\<close> of \<^verbatim>\<open>_create_pdf\<close>.\<close>

fun add_images :: "env \<Rightarrow> string list \<Rightarrow> pdf \<Rightarrow> pdf prog" where
  "add_images env [] pdf = return pdf"
| "add_images env (img # images) pdf =
     bind (pdf_add_page env pdf) (\<lambda>pdf1.
     bind (pdf_image env pdf1 img) (\<lambda>pdf2.
     bind (os_remove env img) (\<lambda>_.
     add_images env images pdf2)))"

definition create_pdf :: "env \<Rightarrow> string \<Rightarrow> string \<Rightarrow> string \<Rightarrow> unit prog" where
  "create_pdf env image_dir output_dir pdf_name =
     (let directory = os_path_join image_dir ''*.jpg'';
          output_path = output_dir @ ''/'' @ pdf_name
      in bind (glob env directory) (\<lambda>found.
         bind (add_images env (sort found) []) (\<lambda>pdf.
         pdf_output env pdf output_path)))"

text \<open>The name under which \<^verbatim>\<open>download_pdf\<close> saves the page \<open>cur\<close> of \<open>tot\<close>.\<close>

definition page_name :: "string \<Rightarrow> int \<Rightarrow> int \<Rightarrow> int \<Rightarrow> int \<Rightarrow> string" where
  "page_name dir bk pg cur tot =
     dir @ ''/bk_'' @ format_0d 6 bk @ ''_pg_'' @ format_0d 6 pg
         @ ''_'' @ format_0d 2 cur @ ''_of_'' @ format_0d 2 tot"

definition pdf_name :: "int \<Rightarrow> int \<Rightarrow> string" where
  "pdf_name book page =
     ''plymouth_cty_reg_deeds_book'' @ format_0d 6 book @ ''_page'' @ format_0d 6 page @ ''.pdf''"

text \<open>The loop \<^verbatim>\<open>while current_page <= total_pages\<close> of \<^verbatim>\<open>download_pdf\<close>.\<close>

function download_loop ::
    "env \<Rightarrow> session \<Rightarrow> string \<Rightarrow> int \<Rightarrow> int \<Rightarrow> int \<Rightarrow> int \<Rightarrow> unit prog" where
  "download_loop env session page_download_dir book page total_pages current_page =
     (if current_page \<le> total_pages then
        bind (get_page_url env) (\<lambda>page_url.
        bind (download_image env session page_url page_download_dir
                (page_name page_download_dir book page current_page total_pages)
                (current_page, total_pages)) (\<lambda>_.
        bind (if current_page \<noteq> total_pages then go_to_next_page env else return ()) (\<lambda>_.
        download_loop env session page_download_dir book page total_pages (current_page + 1))))
      else return ())"
  by pat_completeness auto
termination
  by (relation "measure (\<lambda>(env, session, d, book, page, total_pages, current_page).
        nat (total_pages + 1 - current_page))") auto

declare download_loop.simps [simp del]

definition download_pdf :: "env \<Rightarrow> int \<Rightarrow> int \<Rightarrow> string \<Rightarrow> pyval prog" where
  "download_pdf env book page output_dir =
     bind (py_print (''Trying to obtain Book '' @ str_int book @ '' Page '' @ str_int page)) (\<lambda>_.
     with_temporary_directory env (\<lambda>page_download_dir.
       bind (browser_new env (resource_path env ''chromedriver'')) (\<lambda>_.
       bind (visit env ''http://titleview.org/plymouthdeeds/'') (\<lambda>_.
       bind (go_to_search_page env book) (\<lambda>_.
       bind (fill_in_search_terms env book page) (\<lambda>_.
       bind (select_document env) (\<lambda>_.
       bind (create_session env) (\<lambda>session.
       bind (get_number_of_pages env) (\<lambda>total_pages.
       bind (download_loop env session page_download_dir book page total_pages 1) (\<lambda>_.
       bind (create_pdf env page_download_dir output_dir (pdf_name book page)) (\<lambda>_.
       return PyNone)))))))))))"

text \<open>
  \<^verbatim>\<open>main\<close>, after the arguments have been read (the graphical front end is outside the
  model): the loop \<^verbatim>\<open>while retries <= MAX_RETRIES\<close> and the \<^verbatim>\<open>raise\<close> after it.
\<close>

function main_loop :: "env \<Rightarrow> int \<Rightarrow> int \<Rightarrow> string \<Rightarrow> int \<Rightarrow> pyval prog" where
  "main_loop env book page download_dir retries =
     (if retries \<le> MAX_RETRIES then
        try_except
          (bind (download_pdf env book page download_dir) (\<lambda>_.
           bind (py_print ''Success!'') (\<lambda>_.
           return PyNone)))
          (\<lambda>ex.
           bind (py_print ''Error! Retrying'') (\<lambda>_.
           bind (py_print (''Exception:'' @ [CHR 0x0A] @ str_exn ex @ [CHR 0x0A])) (\<lambda>_.
           main_loop env book page download_dir (retries + 1))))
      else throw (Exn ValueError
        ''Unable to obtain document. Confirm the book and page numbers entered are valid''))"
  by pat_completeness auto
termination
  by (relation "measure (\<lambda>(env, book, page, download_dir, retries).
        nat (MAX_RETRIES + 1 - retries))") auto

declare main_loop.simps [simp del]

definition main :: "env \<Rightarrow> int \<Rightarrow> int \<Rightarrow> string \<Rightarrow> pyval prog" where
  "main env book page download_dir = main_loop env book page download_dir 0"

section \<open>Vocabulary of the statements\<close>

text \<open>The events added to the trace between two states of the world.\<close>

definition new_events :: "world \<Rightarrow> world \<Rightarrow> event list" where
  "new_events w w' = drop (length (trace w)) (trace w')"

text \<open>From call \<open>n\<close> on, no call raises.\<close>

definition no_faults_from :: "env \<Rightarrow> nat \<Rightarrow> bool" where
  "no_faults_from env n = (\<forall>k\<ge>n. faults env k = None)"

text \<open>
  What the \<^verbatim>\<open>except\<close> branch of \<^verbatim>\<open>main\<close> prints, and the state in which attempt \<open>k + 1\<close>
  starts when the attempts \<open>1\<close> to \<open>k\<close> have all raised (\<open>None\<close> when one of them did
  not). The exception an attempt raises is not looked at.
\<close>

definition report_error :: "exn \<Rightarrow> world \<Rightarrow> world" where
  "report_error ex w =
     w\<lparr>trace := trace w @ [Print ''Error! Retrying'',
                             Print (''Exception:'' @ [CHR 0x0A] @ str_exn ex @ [CHR 0x0A])]\<rparr>"

fun failed_attempts :: "env \<Rightarrow> int \<Rightarrow> int \<Rightarrow> string \<Rightarrow> nat \<Rightarrow> world \<Rightarrow> world option" where
  "failed_attempts env book page download_dir 0 w = Some w"
| "failed_attempts env book page download_dir (Suc k) w =
     (case fst (download_pdf env book page download_dir w) of
        Inr _ \<Rightarrow> None
      | Inl ex \<Rightarrow>
          failed_attempts env book page download_dir k
            (report_error ex (snd (download_pdf env book page download_dir w))))"

text \<open>The line an attempt prints first.\<close>

definition trying_line :: "int \<Rightarrow> int \<Rightarrow> string" where
  "trying_line book page = ''Trying to obtain Book '' @ str_int book @ '' Page '' @ str_int page"

text \<open>
  The number the label of the viewer stands for when the viewer shows its first page, as
  \<^verbatim>\<open>_get_number_of_pages\<close> reads it.
\<close>

definition label_count :: "env \<Rightarrow> exn + int" where
  "label_count env =
     py_int (last (py_split CHR '' '' (element_value env ''ImageViewer1_lblPageNum'' 1)))"

text \<open>
  The image of page \<open>i\<close> of the viewer, as \<^verbatim>\<open>_get_page_url\<close> and \<^verbatim>\<open>_download_image\<close> fetch it
  with the cookies of the browser, and the file in which page \<open>i\<close> of \<open>tot\<close> is kept.
\<close>

definition page_image :: "env \<Rightarrow> int \<Rightarrow> bytes" where
  "page_image env i =
     http_body env (cookies env)
       (py_replace ''ZOOM=1'' ''ZOOM=6'' (element_src env ''ImageViewer1_docImage'' i))"

definition page_file :: "env \<Rightarrow> string \<Rightarrow> int \<Rightarrow> int \<Rightarrow> int \<Rightarrow> int \<Rightarrow> string \<times> bytes" where
  "page_file env d book page tot i = (file_path d (page_name d book page i tot), page_image env i)"

text \<open>Where the document of a book and page is written.\<close>

definition artifact_path :: "string \<Rightarrow> int \<Rightarrow> int \<Rightarrow> string" where
  "artifact_path output_dir book page = output_dir @ ''/'' @ pdf_name book page"

subsection \<open>A sample world\<close>

text \<open>
  A machine on which nothing has happened yet, and a site whose viewer shows the label
  \<open>label\<close> and serves, for page \<open>p\<close>, an image whose address ends in \<^verbatim>\<open>PAGE=p&ZOOM=1\<close>. The
  calls that raise are given by \<open>f\<close>.
\<close>

definition sample_world :: world where
  "sample_world =
     \<lparr>clock = 0, trace = [], browsers = 0, viewer_page = 0, tmp_dir = None, tmp_files = [],
      outputs = [], partial_files = []\<rparr>"

definition sample_env :: "string \<Rightarrow> (nat \<Rightarrow> exn option) \<Rightarrow> env" where
  "sample_env label f =
     \<lparr>faults = f,
      base_path = ''/opt/deed_finder'',
      tmp_name = (\<lambda>_. ''/tmp/tmpq3x8k1a_''),
      cookies = [(''ASP.NET_SessionId'', ''abc'')],
      element_value = (\<lambda>i p. label),
      element_src = (\<lambda>i p. ''http://titleview.org/img?PAGE='' @ str_int p @ ''&ZOOM=1''),
      http_body = (\<lambda>s u. ''JPEG of '' @ u),
      dir_rank = (\<lambda>p. length p),
      torn = (\<lambda>_. False)\<rparr>"


subsection \<open>Vocabulary of the proofs\<close>

text \<open>
  \<^verbatim>\<open>download_pdf\<close> between the creation of the temporary directory and the call of
  \<^verbatim>\<open>_create_pdf\<close>: the browser is started, the record is looked up, the page count is read
  and the pages are downloaded.
\<close>

definition fetch_all :: "env \<Rightarrow> int \<Rightarrow> int \<Rightarrow> string \<Rightarrow> unit prog" where
  "fetch_all env book page page_download_dir =
     bind (browser_new env (resource_path env ''chromedriver'')) (\<lambda>_.
     bind (visit env ''http://titleview.org/plymouthdeeds/'') (\<lambda>_.
     bind (go_to_search_page env book) (\<lambda>_.
     bind (fill_in_search_terms env book page) (\<lambda>_.
     bind (select_document env) (\<lambda>_.
     bind (create_session env) (\<lambda>session.
     bind (get_number_of_pages env) (\<lambda>total_pages.
     download_loop env session page_download_dir book page total_pages 1)))))))"

text \<open>A relation between the state before and the state after holds for every run.\<close>

definition keeps :: "(world \<Rightarrow> world \<Rightarrow> bool) \<Rightarrow> 'a prog \<Rightarrow> bool" where
  "keeps R m = (\<forall>w. R w (snd (m w)))"

definition is_browser_new :: "event \<Rightarrow> bool" where
  "is_browser_new ev = (case ev of BrowserNew _ \<Rightarrow> True | _ \<Rightarrow> False)"

text \<open>
  The events of the attempt after its first line: the only lines printed are the progress
  lines. Before \<^verbatim>\<open>_create_pdf\<close> writes the document, no directory is made or removed and no
  document is written either.
\<close>

definition quiet_event :: "event \<Rightarrow> bool" where
  "quiet_event ev = (case ev of Print s \<Rightarrow> prefix ''Downloaded page '' s | _ \<Rightarrow> True)"

definition fetch_event :: "event \<Rightarrow> bool" where
  "fetch_event ev =
     (case ev of
        Print s \<Rightarrow> prefix ''Downloaded page '' s
      | MkTemp _ \<Rightarrow> False
      | RmTemp _ \<Rightarrow> False
      | PdfOutput _ \<Rightarrow> False
      | _ \<Rightarrow> True)"

text \<open>
  The trace only grows, by events of one kind; the clock does not go back; and the number
  of running browsers grows by one with every browser that is started.
\<close>

definition grows :: "(event \<Rightarrow> bool) \<Rightarrow> world \<Rightarrow> world \<Rightarrow> bool" where
  "grows P w w' =
     (clock w \<le> clock w' \<and>
      (\<exists>evs. trace w' = trace w @ evs \<and> list_all P evs
         \<and> browsers w' = browsers w + length (filter is_browser_new evs)))"

definition fetch_rel :: "world \<Rightarrow> world \<Rightarrow> bool" where
  "fetch_rel w w' = (grows fetch_event w w' \<and> outputs w' = outputs w \<and> tmp_dir w' = tmp_dir w)"

section \<open>Facts about the string operations\<close>

lemma replicate_num: "replicate (numeral k) x = x # replicate (pred_numeral k) x"
  by (simp add: numeral_eq_Suc)

lemmas eval_strings = format_0d_def zfill_def digits.simps digit_char_def replicate_num str_int_def

lemma digit_char_code: "d < 10 \<Longrightarrow> of_char (digit_char d) = 48 + d"
proof -
  assume "d < 10"
  then have "d \<in> {0, 1, 2, 3, 4, 5, 6, 7, 8, 9}" by auto
  then show ?thesis by (auto simp: digit_char_def)
qed

lemma digit_char_less: "d < e \<Longrightarrow> e < 10 \<Longrightarrow> digit_char d < digit_char e"
  by (simp add: less_char_def digit_char_code)

lemma format_0d_two_digits:
  assumes "0 \<le> n" "n < 100"
  shows "format_0d 2 n = [digit_char (nat n div 10), digit_char (nat n mod 10)]"
proof (cases "n < 10")
  case True
  with assms have "nat n < 10" by linarith
  with assms show ?thesis
    by (simp add: format_0d_def zfill_def digits.simps [of "nat n"] digit_char_def)
next
  case False
  with assms have "nat n div 10 < 10" by linarith
  with False assms show ?thesis
    by (simp add: format_0d_def zfill_def digits.simps [of "nat n"] digits.simps [of "nat n div 10"])
qed

lemma div_mod_10_less:
  "(a::nat) < b \<Longrightarrow> a div 10 < b div 10 \<or> (a div 10 = b div 10 \<and> a mod 10 < b mod 10)"
  by (metis div_le_mono less_imp_le_nat mod_less_eq_dividend nat_less_le div_mult_mod_eq
      add_less_cancel_left)

lemma format_0d_2_less:
  assumes "0 \<le> i" "i < j" "j < 100"
  shows "format_0d 2 i < format_0d 2 j"
proof -
  have "nat i div 10 < nat j div 10
      \<or> (nat i div 10 = nat j div 10 \<and> nat i mod 10 < nat j mod 10)"
    using assms by (intro div_mod_10_less) linarith
  moreover have "nat j div 10 < 10" using assms by linarith
  ultimately show ?thesis
    using assms by (auto simp: format_0d_two_digits digit_char_less)
qed

lemma append_less_same_length:
  "length a = length b \<Longrightarrow> a < b \<Longrightarrow> a @ s < b @ t"
  by (induction a b rule: list_induct2) auto

lemma less_append_common: "(p @ a < p @ b) = (a < (b :: string))"
  by (induction p) auto

lemma file_path_page_name:
  "\<exists>P. \<forall>i. file_path d (page_name d b p i t)
           = P @ format_0d 2 i @ ''_of_'' @ format_0d 2 t @ ''.jpg''"
proof (cases "d = [] \<or> prefix ''/'' d")
  case True
  then have "\<forall>i. file_path d (page_name d b p i t)
      = (d @ ''/bk_'' @ format_0d 6 b @ ''_pg_'' @ format_0d 6 p @ ''_'')
        @ format_0d 2 i @ ''_of_'' @ format_0d 2 t @ ''.jpg''"
    by (auto simp: file_path_def page_name_def os_path_join_def prefix_def)
  then show ?thesis by blast
next
  case False
  then have np: "\<not> prefix ''/'' (page_name d b p i t @ ''.jpg'')" for i
    by (cases d) (auto simp: page_name_def)
  show ?thesis
  proof (cases "suffix ''/'' d")
    case True
    with False np have "\<forall>i. file_path d (page_name d b p i t)
      = (d @ d @ ''/bk_'' @ format_0d 6 b @ ''_pg_'' @ format_0d 6 p @ ''_'')
        @ format_0d 2 i @ ''_of_'' @ format_0d 2 t @ ''.jpg''"
      by (simp add: file_path_def os_path_join_def) (simp add: page_name_def)
    then show ?thesis by blast
  next
    case nsuf: False
    with False np have "\<forall>i. file_path d (page_name d b p i t)
      = (d @ ''/'' @ d @ ''/bk_'' @ format_0d 6 b @ ''_pg_'' @ format_0d 6 p @ ''_'')
        @ format_0d 2 i @ ''_of_'' @ format_0d 2 t @ ''.jpg''"
      by (simp add: file_path_def os_path_join_def) (simp add: page_name_def)
    then show ?thesis by blast
  qed
qed

lemma format_0d_2_20: "format_0d 2 20 = ''20''"
  by (simp add: eval_strings)

lemma format_0d_2_100: "format_0d 2 100 = ''100''"
  by (simp add: eval_strings)

section \<open>Claims about names\<close>

text \<open>
  C5. Within one run (the directory, the book, the page and the total fixed), the files of
  two pages \<open>i < j\<close> are named in the order of the pages as long as the total is at most
  99; from a total of 100 on there are pages \<open>i < j\<close> whose names are not in that order
  (pages 20 and 100).
\<close>

theorem transient_name_order:
  "(tot \<le> 99 \<longrightarrow>
      (\<forall>i j. 1 \<le> i \<and> i < j \<and> j \<le> tot \<longrightarrow>
         file_path d (page_name d b p i tot) < file_path d (page_name d b p j tot)))
   \<and> (100 \<le> tot \<longrightarrow>
      (\<exists>i j. 1 \<le> i \<and> i < j \<and> j \<le> tot
         \<and> \<not> file_path d (page_name d b p i tot) < file_path d (page_name d b p j tot)))"
proof -
  obtain P where P: "\<And>i. file_path d (page_name d b p i tot)
      = P @ format_0d 2 i @ ''_of_'' @ format_0d 2 tot @ ''.jpg''"
    using file_path_page_name [of d b p tot] by blast
  have small: "file_path d (page_name d b p i tot) < file_path d (page_name d b p j tot)"
    if "tot \<le> 99" "1 \<le> i" "i < j" "j \<le> tot" for i j
  proof -
    from that have "format_0d 2 i < format_0d 2 j" by (intro format_0d_2_less) auto
    moreover from that have "length (format_0d 2 i) = length (format_0d 2 j)"
      by (simp add: format_0d_two_digits)
    ultimately show ?thesis
      unfolding P less_append_common by (rule append_less_same_length [rotated])
  qed
  have large: "\<not> file_path d (page_name d b p 20 tot) < file_path d (page_name d b p 100 tot)"
    unfolding P less_append_common by (simp add: format_0d_2_20 format_0d_2_100)
  show ?thesis
  proof (intro conjI impI allI)
    fix i j assume "tot \<le> 99" "1 \<le> i \<and> i < j \<and> j \<le> tot"
    then show "file_path d (page_name d b p i tot) < file_path d (page_name d b p j tot)"
      using small by blast
  next
    assume "100 \<le> tot"
    with large show "\<exists>i j. 1 \<le> i \<and> i < j \<and> j \<le> tot
         \<and> \<not> file_path d (page_name d b p i tot) < file_path d (page_name d b p j tot)"
      by (intro exI [of _ 20] exI [of _ 100]) simp
  qed
qed

theorem transient_name_order_witness:
  "file_path ''/tmp/t'' (page_name ''/tmp/t'' 500 10 9 12)
     < file_path ''/tmp/t'' (page_name ''/tmp/t'' 500 10 10 12)
   \<and> (\<exists>i j. 1 \<le> i \<and> i < j \<and> j \<le> (120::int)
         \<and> \<not> file_path ''/tmp/t'' (page_name ''/tmp/t'' 500 10 i 120)
              < file_path ''/tmp/t'' (page_name ''/tmp/t'' 500 10 j 120))"
  using transient_name_order [of 12 "''/tmp/t''" 500 10]
        transient_name_order [of 120 "''/tmp/t''" 500 10]
  by simp

lemma pdf_name_500_10:
  "pdf_name 500 10 = ''plymouth_cty_reg_deeds_book000500_page000010.pdf''"
  by (simp add: pdf_name_def eval_strings)


section \<open>Running programs\<close>

text \<open>
  Rules that run a program from the left: a call followed by the rest of the program, applied
  to a state, becomes the rest of the program applied to the next state.
\<close>

lemma bind_assoc: "bind (bind m g) f = bind m (\<lambda>x. bind (g x) f)"
  by (rule ext) (simp add: bind_def split: prod.splits sum.splits)

lemma bind_return: "bind (return x) f w = f x w"
  by (simp add: bind_def return_def)

lemma bind_throw: "bind (throw e) f w = (Inl e, w)"
  by (simp add: bind_def throw_def)

lemma bind_gets: "bind (gets g) f w = f (g w) w"
  by (simp add: bind_def gets_def)

lemma bind_modify: "bind (modify g) f w = f () (g w)"
  by (simp add: bind_def modify_def)

lemma bind_step:
  "bind (step env ev) f w =
    (case faults env (clock w) of
       Some e \<Rightarrow> (Inl e, w\<lparr>clock := Suc (clock w)\<rparr>)
     | None \<Rightarrow> f () (w\<lparr>clock := Suc (clock w), trace := trace w @ [ev]\<rparr>))"
  by (simp add: bind_def step_def split: option.splits)

lemma bind_pdf_output:
  "bind (pdf_output env pdf q) f w =
    (case faults env (clock w) of
       Some e \<Rightarrow> (Inl e, w\<lparr>clock := Suc (clock w),
         partial_files := partial_files w @ (if torn env (clock w) then [q] else [])\<rparr>)
     | None \<Rightarrow> f () (w\<lparr>clock := Suc (clock w), trace := trace w @ [PdfOutput q],
         outputs := outputs w @ [(q, pdf_close pdf)]\<rparr>))"
  by (simp add: bind_def pdf_output_def split: option.splits)

lemma bind_if: "bind (if c then a else b) f w = (if c then bind a f w else bind b f w)"
  by simp

lemma bind_case_sum:
  "bind (case s of Inl e \<Rightarrow> a e | Inr x \<Rightarrow> b x) f w
    = (case s of Inl e \<Rightarrow> bind (a e) f w | Inr x \<Rightarrow> bind (b x) f w)"
  by (simp split: sum.splits)

lemma bind_case_option:
  "bind (case s of None \<Rightarrow> a | Some x \<Rightarrow> b x) f w
    = (case s of None \<Rightarrow> bind a f w | Some x \<Rightarrow> bind (b x) f w)"
  by (simp split: option.splits)

lemma bind_return_right: "bind m return = m"
  by (rule ext) (simp add: bind_def return_def split: prod.splits sum.splits)

lemma run_eq: "m w = bind m return w"
  by (simp add: bind_return_right)

lemmas run_rules = bind_assoc bind_return bind_throw bind_gets bind_modify bind_step bind_pdf_output bind_if
  bind_case_sum bind_case_option return_def throw_def

lemmas call_defs = py_print_def sleep_def browser_new_def visit_def mouse_over_def click_def
  fill_def switch_window_def read_value_def read_src_def http_get_def write_file_def glob_def
  os_remove_def pdf_add_page_def pdf_image_def mkdtemp_def

lemma bind_Inr_iff:
  "bind m f w = (Inr y, w') \<longleftrightarrow> (\<exists>x w1. m w = (Inr x, w1) \<and> f x w1 = (Inr y, w'))"
  by (auto simp: bind_def split: prod.splits sum.splits)

lemma bind_Inl_iff:
  "bind m f w = (Inl e, w') \<longleftrightarrow>
     m w = (Inl e, w') \<or> (\<exists>x w1. m w = (Inr x, w1) \<and> f x w1 = (Inl e, w'))"
  by (auto simp: bind_def split: prod.splits sum.splits)

section \<open>Claims about single functions\<close>

text \<open>
  C7. \<^verbatim>\<open>_go_to_search_page\<close> moves the mouse over the menu and then clicks one search link.
  Which one depends on the book alone, through one comparison with the constant 2393: the
  link \<^verbatim>\<open>LinkButton02\<close> for a book below 2393, the link \<^verbatim>\<open>LinkButton01\<close> for any other book.
\<close>

theorem go_to_search_page_threshold:
  "go_to_search_page env book w = (Inr u, w') \<longrightarrow>
     new_events w w' =
       [MouseOver ''Navigator1_SearchCriteria1_menuLabel'',
        Click (if book < 2393 then ''Navigator1_SearchCriteria1_LinkButton02''
               else ''Navigator1_SearchCriteria1_LinkButton01'')]"
  by (subst run_eq)
     (auto simp: go_to_search_page_def Let_def run_rules call_defs on_click_def new_events_def
           split: option.splits)

theorem go_to_search_page_threshold_witness:
  "new_events sample_world
      (snd (go_to_search_page (sample_env ''Page 1 of 3'' (\<lambda>_. None)) 2392 sample_world))
     = [MouseOver ''Navigator1_SearchCriteria1_menuLabel'',
        Click ''Navigator1_SearchCriteria1_LinkButton02'']
   \<and> new_events sample_world
      (snd (go_to_search_page (sample_env ''Page 1 of 3'' (\<lambda>_. None)) 2393 sample_world))
     = [MouseOver ''Navigator1_SearchCriteria1_menuLabel'',
        Click ''Navigator1_SearchCriteria1_LinkButton01'']"
proof -
  let ?env = "sample_env ''Page 1 of 3'' (\<lambda>_. None)"
  have ok: "fst (go_to_search_page ?env b sample_world) = Inr ()" for b
    by (subst run_eq)
       (simp add: go_to_search_page_def Let_def run_rules call_defs on_click_def sample_env_def)
  from ok [of 2392] ok [of 2393]
    go_to_search_page_threshold [of ?env 2392 sample_world "()"
      "snd (go_to_search_page ?env 2392 sample_world)"]
    go_to_search_page_threshold [of ?env 2393 sample_world "()"
      "snd (go_to_search_page ?env 2393 sample_world)"]
  show ?thesis
    by (simp add: prod_eq_iff)
qed




lemma py_replace_no_occurrence:
  "old \<noteq> [] \<Longrightarrow> \<not> sublist old s \<Longrightarrow> py_replace old new s = s"
proof (induction s)
  case Nil
  then show ?case by (simp add: py_replace.simps)
next
  case (Cons c cs)
  from Cons.prems have "\<not> prefix old (c # cs)"
    using prefix_imp_sublist by blast
  moreover from Cons.prems have "\<not> sublist old cs"
    by (simp add: sublist_Cons_right)
  ultimately show ?case
    using Cons by (simp add: py_replace.simps(2) [of old new c cs])
qed

lemma zoom_no_overlap:
  assumes "prefix ''ZOOM=1'' (pre @ ''ZOOM=1'' @ post)" "pre \<noteq> []"
  shows "sublist ''ZOOM=1'' pre"
proof -
  consider "prefix ''ZOOM=1'' pre"
    | us where "''ZOOM=1'' = pre @ us" "prefix us (''ZOOM=1'' @ post)"
    using assms(1) unfolding prefix_append by blast
  then have "prefix ''ZOOM=1'' pre"
  proof cases
    case 1
    then show ?thesis .
  next
    case 2
    define n where "n = length pre"
    from 2(1) have "length ''ZOOM=1'' = n + length us"
      unfolding n_def by (metis length_append)
    then have "n \<le> 6" by simp
    moreover from assms(2) have "n \<noteq> 0" by (simp add: n_def)
    ultimately have n: "n = 1 \<or> n = 2 \<or> n = 3 \<or> n = 4 \<or> n = 5 \<or> n = 6" by linarith
    from 2(1) have us: "us = drop n ''ZOOM=1''" and pre: "pre = take n ''ZOOM=1''"
      unfolding n_def by (simp_all add: append_eq_conv_conj)
    from n show ?thesis
    proof (elim disjE)
      assume "n = 6"
      with pre show ?thesis by simp
    qed (use us 2(2) in simp_all)
  qed
  then show ?thesis by (rule prefix_imp_sublist)
qed

lemma py_replace_first_zoom:
  "\<not> sublist ''ZOOM=1'' pre \<Longrightarrow>
     py_replace ''ZOOM=1'' ''ZOOM=6'' (pre @ ''ZOOM=1'' @ post)
       = pre @ ''ZOOM=6'' @ py_replace ''ZOOM=1'' ''ZOOM=6'' post"
proof (induction pre)
  case Nil
  show ?case
    by (simp add: py_replace.simps(2) [of _ _ "CHR ''Z''"])
next
  case (Cons c cs)
  let ?rest = "cs @ ''ZOOM=1'' @ post"
  from Cons.prems have "\<not> sublist ''ZOOM=1'' cs"
    by (simp add: sublist_Cons_right)
  then have IH: "py_replace ''ZOOM=1'' ''ZOOM=6'' ?rest
      = cs @ ''ZOOM=6'' @ py_replace ''ZOOM=1'' ''ZOOM=6'' post"
    by (rule Cons.IH)
  have "\<not> prefix ''ZOOM=1'' (c # ?rest)"
    using zoom_no_overlap [of "c # cs" post] Cons.prems by auto
  then have "py_replace ''ZOOM=1'' ''ZOOM=6'' (c # ?rest)
      = c # py_replace ''ZOOM=1'' ''ZOOM=6'' ?rest"
    by (subst py_replace.simps(2)) auto
  with IH show ?case by simp
qed


lemma sample_env_sel:
  "faults (sample_env l f) = f"
  "base_path (sample_env l f) = ''/opt/deed_finder''"
  "tmp_name (sample_env l f) k = ''/tmp/tmpq3x8k1a_''"
  "cookies (sample_env l f) = [(''ASP.NET_SessionId'', ''abc'')]"
  "element_value (sample_env l f) i p = l"
  "element_src (sample_env l f) i p = ''http://titleview.org/img?PAGE='' @ str_int p @ ''&ZOOM=1''"
  "http_body (sample_env l f) s u = ''JPEG of '' @ u"
  "dir_rank (sample_env l f) q = length q"
  "torn (sample_env l f) k = False"
  by (simp_all add: sample_env_def)

lemma get_page_url_Inr:
  "get_page_url env w = (Inr url, w') \<Longrightarrow>
     url = py_replace ''ZOOM=1'' ''ZOOM=6'' (element_src env ''ImageViewer1_docImage'' (viewer_page w))"
  by (subst (asm) run_eq)
     (auto simp: get_page_url_def Let_def run_rules call_defs split: option.splits)

text \<open>
  C8. The address \<^verbatim>\<open>_get_page_url\<close> returns is the \<^verbatim>\<open>src\<close> of the image the viewer shows, with
  the text \<^verbatim>\<open>ZOOM=1\<close> replaced by \<^verbatim>\<open>ZOOM=6\<close> and nothing else changed: an address without
  \<^verbatim>\<open>ZOOM=1\<close> is returned as it is; in an address \<open>pre @ ZOOM=1 @ post\<close> whose first
  \<^verbatim>\<open>ZOOM=1\<close> is the one shown, \<open>pre\<close> is kept, \<^verbatim>\<open>ZOOM=1\<close> becomes \<^verbatim>\<open>ZOOM=6\<close>, and \<open>post\<close> is
  treated in the same way (so it is kept too when it has no \<^verbatim>\<open>ZOOM=1\<close>).
\<close>

theorem get_page_url_rewrites_zoom:
  assumes "get_page_url env w = (Inr url, w')"
    and "src = element_src env ''ImageViewer1_docImage'' (viewer_page w)"
  shows "(\<not> sublist ''ZOOM=1'' src \<longrightarrow> url = src)
    \<and> (\<forall>pre post. src = pre @ ''ZOOM=1'' @ post \<and> \<not> sublist ''ZOOM=1'' pre \<longrightarrow>
          url = pre @ ''ZOOM=6'' @ py_replace ''ZOOM=1'' ''ZOOM=6'' post
          \<and> (\<not> sublist ''ZOOM=1'' post \<longrightarrow> url = pre @ ''ZOOM=6'' @ post))"
proof -
  from assms have url: "url = py_replace ''ZOOM=1'' ''ZOOM=6'' src"
    by (simp add: get_page_url_Inr)
  show ?thesis
  proof (intro conjI allI impI)
    assume "\<not> sublist ''ZOOM=1'' src"
    then show "url = src"
      unfolding url by (simp add: py_replace_no_occurrence)
  next
    fix pre post
    assume *: "src = pre @ ''ZOOM=1'' @ post \<and> \<not> sublist ''ZOOM=1'' pre"
    then show first: "url = pre @ ''ZOOM=6'' @ py_replace ''ZOOM=1'' ''ZOOM=6'' post"
      unfolding url using py_replace_first_zoom [of pre post] by simp
    assume "\<not> sublist ''ZOOM=1'' post"
    then show "url = pre @ ''ZOOM=6'' @ post"
      unfolding first by (simp add: py_replace_no_occurrence)
  qed
qed

theorem get_page_url_rewrites_zoom_witness:
  "fst (get_page_url (sample_env ''Page 1 of 3'' (\<lambda>_. None)) sample_world)
     = Inr ''http://titleview.org/img?PAGE=0&ZOOM=6''"
proof -
  let ?env = "sample_env ''Page 1 of 3'' (\<lambda>_. None)"
  obtain r w' where run: "get_page_url ?env sample_world = (r, w')"
    by (cases "get_page_url ?env sample_world")
  have "fst (get_page_url ?env sample_world) \<noteq> Inl e" for e
    by (subst run_eq)
       (simp add: get_page_url_def Let_def run_rules call_defs sample_env_sel)
  with run obtain url where r: "r = Inr url"
    by (cases r) auto
  have src: "''http://titleview.org/img?PAGE=0&ZOOM=1''
      = element_src ?env ''ImageViewer1_docImage'' (viewer_page sample_world)"
    by (simp add: sample_env_sel sample_world_def eval_strings)
  have "\<not> sublist ''ZOOM=1'' ''http://titleview.org/img?PAGE=0&''"
    by (simp add: sublist_Cons_right)
  then have "url = ''http://titleview.org/img?PAGE=0&'' @ ''ZOOM=6'' @ []"
    using get_page_url_rewrites_zoom [OF run [unfolded r] src, THEN conjunct2, THEN spec,
      of "''http://titleview.org/img?PAGE=0&''", THEN spec, of "[]"]
    by (simp add: sublist_Cons_right py_replace.simps(1))
  with run r show ?thesis by simp
qed


section \<open>What every run keeps\<close>

lemma keepsD: "keeps R m \<Longrightarrow> m w = (r, w') \<Longrightarrow> R w w'"
  by (auto simp: keeps_def dest: spec [of _ w])

lemma keeps_bind:
  assumes trans: "\<And>a b c. R a b \<Longrightarrow> R b c \<Longrightarrow> R a c"
    and m: "keeps R m" and f: "\<And>x. keeps R (f x)"
  shows "keeps R (bind m f)"
  unfolding keeps_def
proof
  fix w
  obtain r w1 where mw: "m w = (r, w1)" by (cases "m w")
  have 1: "R w w1" using m mw by (rule keepsD)
  show "R w (snd (bind m f w))"
  proof (cases r)
    case (Inl e)
    with mw 1 show ?thesis by (simp add: bind_def)
  next
    case (Inr x)
    from f [of x] have "R w1 (snd (f x w1))" by (simp add: keeps_def)
    with 1 have "R w (snd (f x w1))" by (rule trans)
    with mw Inr show ?thesis by (simp add: bind_def)
  qed
qed

lemma keeps_return: "(\<And>w. R w w) \<Longrightarrow> keeps R (return x)"
  by (simp add: keeps_def return_def)

lemma keeps_throw: "(\<And>w. R w w) \<Longrightarrow> keeps R (throw e)"
  by (simp add: keeps_def throw_def)

lemma keeps_gets: "(\<And>w. R w w) \<Longrightarrow> keeps R (gets g)"
  by (simp add: keeps_def gets_def)

lemma keeps_sleep: "(\<And>w. R w w) \<Longrightarrow> keeps R (sleep n)"
  by (simp add: sleep_def keeps_return)

lemma keeps_modify: "(\<And>w. R w (g w)) \<Longrightarrow> keeps R (modify g)"
  by (simp add: keeps_def modify_def)

lemma keeps_if: "keeps R a \<Longrightarrow> keeps R b \<Longrightarrow> keeps R (if c then a else b)"
  by simp

lemma keeps_case_sum:
  "(\<And>e. keeps R (a e)) \<Longrightarrow> (\<And>x. keeps R (b x)) \<Longrightarrow>
     keeps R (case s of Inl e \<Rightarrow> a e | Inr x \<Rightarrow> b x)"
  by (simp split: sum.splits)

lemma keeps_case_option:
  "keeps R a \<Longrightarrow> (\<And>x. keeps R (b x)) \<Longrightarrow> keeps R (case s of None \<Rightarrow> a | Some x \<Rightarrow> b x)"
  by (simp split: option.splits)

lemma keeps_weaken: "(\<And>w w'. R w w' \<Longrightarrow> Q w w') \<Longrightarrow> keeps R m \<Longrightarrow> keeps Q m"
  by (simp add: keeps_def)

lemma grows_refl: "grows P w w"
  by (simp add: grows_def)

lemma grows_trans: "grows P a b \<Longrightarrow> grows P b c \<Longrightarrow> grows P a c"
  by (auto simp: grows_def)

lemma grows_weaken: "(\<And>e. P e \<Longrightarrow> Q e) \<Longrightarrow> grows P a b \<Longrightarrow> grows Q a b"
  by (auto simp: grows_def list_all_iff)

lemma fetch_rel_refl: "fetch_rel w w"
  by (simp add: fetch_rel_def grows_refl)

lemma fetch_rel_trans: "fetch_rel a b \<Longrightarrow> fetch_rel b c \<Longrightarrow> fetch_rel a c"
  by (auto simp: fetch_rel_def intro: grows_trans)

lemma grows_step:
  "P ev \<Longrightarrow> \<not> is_browser_new ev \<Longrightarrow> grows P w (snd (step env ev w))"
  by (simp add: grows_def step_def split: option.splits)

lemma fetch_step:
  "fetch_event ev \<Longrightarrow> \<not> is_browser_new ev \<Longrightarrow> keeps fetch_rel (step env ev)"
  by (simp add: keeps_def fetch_rel_def grows_step) (simp add: step_def split: option.splits)

lemma fetch_print: "prefix ''Downloaded page '' s \<Longrightarrow> keeps fetch_rel (py_print s)"
  by (simp add: keeps_def py_print_def modify_def fetch_rel_def grows_def fetch_event_def
      is_browser_new_def)

lemma grows_browser_new:
  "P (BrowserNew d) \<Longrightarrow> grows P w (snd (browser_new env d w))"
  by (simp add: grows_def browser_new_def bind_def step_def modify_def is_browser_new_def
      split: option.splits)

lemma fetch_browser_new: "keeps fetch_rel (browser_new env d)"
  by (simp add: keeps_def fetch_rel_def grows_browser_new fetch_event_def)
     (simp add: browser_new_def bind_def step_def modify_def split: option.splits)

lemma fetch_on_click: "fetch_rel w (on_click i w)"
  by (simp add: on_click_def fetch_rel_def grows_def)

lemma fetch_tmp_files: "fetch_rel w (w\<lparr>tmp_files := fs\<rparr>)"
  by (simp add: fetch_rel_def grows_def)

lemma fetch_bind:
  assumes "keeps fetch_rel m" and "\<And>x. keeps fetch_rel (f x)"
  shows "keeps fetch_rel (bind m f)"
proof (rule keeps_bind)
  fix a b c
  assume "fetch_rel a b" "fetch_rel b c"
  then show "fetch_rel a c" by (rule fetch_rel_trans)
qed (use assms in auto)

lemmas fetch_intros =
  fetch_bind
  keeps_return [of fetch_rel, OF fetch_rel_refl]
  keeps_throw [of fetch_rel, OF fetch_rel_refl]
  keeps_gets [of fetch_rel, OF fetch_rel_refl]
  keeps_sleep [of fetch_rel, OF fetch_rel_refl]
  keeps_modify [of fetch_rel]
  keeps_if keeps_case_sum keeps_case_option
  fetch_step fetch_print fetch_browser_new fetch_on_click fetch_tmp_files

lemma fetch_visit: "keeps fetch_rel (visit env url)"
  unfolding visit_def by (intro fetch_intros) (simp_all add: fetch_event_def is_browser_new_def)

lemma fetch_mouse_over: "keeps fetch_rel (mouse_over env i)"
  unfolding mouse_over_def by (intro fetch_intros) (simp_all add: fetch_event_def is_browser_new_def)

lemma fetch_click: "keeps fetch_rel (click env i)"
  unfolding click_def by (intro fetch_intros) (simp_all add: fetch_event_def is_browser_new_def)

lemma fetch_fill: "keeps fetch_rel (fill env i v)"
  unfolding fill_def by (intro fetch_intros) (simp_all add: fetch_event_def is_browser_new_def)

lemma fetch_switch_window: "keeps fetch_rel (switch_window env)"
  unfolding switch_window_def by (intro fetch_intros) (simp_all add: fetch_event_def is_browser_new_def)

lemma fetch_read_value: "keeps fetch_rel (read_value env i)"
  unfolding read_value_def by (intro fetch_intros) (simp_all add: fetch_event_def is_browser_new_def)

lemma fetch_read_src: "keeps fetch_rel (read_src env i)"
  unfolding read_src_def by (intro fetch_intros) (simp_all add: fetch_event_def is_browser_new_def)

lemma fetch_http_get: "keeps fetch_rel (http_get env s u)"
  unfolding http_get_def by (intro fetch_intros) (simp_all add: fetch_event_def is_browser_new_def)

lemma fetch_write_file: "keeps fetch_rel (write_file env q c)"
  unfolding write_file_def by (intro fetch_intros) (simp_all add: fetch_event_def is_browser_new_def)

lemma fetch_glob: "keeps fetch_rel (glob env q)"
  unfolding glob_def by (intro fetch_intros) (simp_all add: fetch_event_def is_browser_new_def)

lemma fetch_os_remove: "keeps fetch_rel (os_remove env q)"
  unfolding os_remove_def by (intro fetch_intros) (simp_all add: fetch_event_def is_browser_new_def)

lemma fetch_pdf_add_page: "keeps fetch_rel (pdf_add_page env pdf)"
  unfolding pdf_add_page_def by (intro fetch_intros) (simp_all add: fetch_event_def is_browser_new_def)

lemma fetch_pdf_image: "keeps fetch_rel (pdf_image env pdf q)"
  unfolding pdf_image_def by (intro fetch_intros) (simp_all add: fetch_event_def is_browser_new_def)

lemmas fetch_calls = fetch_visit fetch_mouse_over fetch_click fetch_fill fetch_switch_window
  fetch_read_value fetch_read_src fetch_http_get fetch_write_file fetch_glob fetch_os_remove
  fetch_pdf_add_page fetch_pdf_image

lemma fetch_go_to_search_page: "keeps fetch_rel (go_to_search_page env book)"
  unfolding go_to_search_page_def Let_def by (intro fetch_intros fetch_calls)

lemma fetch_fill_in_search_terms: "keeps fetch_rel (fill_in_search_terms env book page)"
  unfolding fill_in_search_terms_def Let_def by (intro fetch_intros fetch_calls)

lemma fetch_select_document: "keeps fetch_rel (select_document env)"
  unfolding select_document_def Let_def by (intro fetch_intros fetch_calls)

lemma fetch_create_session: "keeps fetch_rel (create_session env)"
  unfolding create_session_def by (intro fetch_intros) (simp_all add: fetch_event_def is_browser_new_def)

lemma fetch_get_number_of_pages: "keeps fetch_rel (get_number_of_pages env)"
  unfolding get_number_of_pages_def Let_def by (intro fetch_intros fetch_calls)

lemma fetch_get_page_url: "keeps fetch_rel (get_page_url env)"
  unfolding get_page_url_def Let_def by (intro fetch_intros fetch_calls)

lemma fetch_download_image: "keeps fetch_rel (download_image env s u d n r)"
  unfolding download_image_def by (intro fetch_intros fetch_calls) (rule prefixI, rule refl)

lemma fetch_go_to_next_page: "keeps fetch_rel (go_to_next_page env)"
  unfolding go_to_next_page_def Let_def by (intro fetch_intros fetch_calls)

lemma fetch_download_loop: "keeps fetch_rel (download_loop env s d b p tot cur)"
proof (induction env s d b p tot cur rule: download_loop.induct)
  case (1 env s d b p tot cur)
  show ?case
  proof (cases "cur \<le> tot")
    case True
    with "1.IH" have IH: "keeps fetch_rel (download_loop env s d b p tot (cur + 1))"
      by blast
    have "keeps fetch_rel
      (bind (get_page_url env) (\<lambda>page_url.
        bind (download_image env s page_url d (page_name d b p cur tot) (cur, tot)) (\<lambda>_.
        bind (if cur \<noteq> tot then go_to_next_page env else return ()) (\<lambda>_.
        download_loop env s d b p tot (cur + 1)))))"
      by (intro fetch_intros fetch_get_page_url fetch_download_image fetch_go_to_next_page IH)
    with True show ?thesis
      by (subst download_loop.simps) simp
  next
    case False
    then show ?thesis
      by (subst download_loop.simps) (simp add: fetch_intros)
  qed
qed

lemma fetch_add_images: "keeps fetch_rel (add_images env images pdf)"
  by (induction images arbitrary: pdf) (auto intro!: fetch_intros fetch_calls)

lemma fetch_fetch_all: "keeps fetch_rel (fetch_all env book page d)"
  unfolding fetch_all_def
  by (intro fetch_intros fetch_calls fetch_go_to_search_page fetch_fill_in_search_terms
      fetch_select_document fetch_create_session fetch_get_number_of_pages fetch_download_loop)

lemma download_pdf_fetch_all:
  "download_pdf env book page output_dir =
     bind (py_print (trying_line book page)) (\<lambda>_.
     with_temporary_directory env (\<lambda>d.
       bind (fetch_all env book page d) (\<lambda>_.
       bind (create_pdf env d output_dir (pdf_name book page)) (\<lambda>_.
       return PyNone))))"
  by (simp add: download_pdf_def fetch_all_def bind_assoc trying_line_def)


section \<open>The shape of an attempt\<close>

lemma mkdtemp_eq:
  "mkdtemp env w =
     (case faults env (clock w) of
        Some e \<Rightarrow> (Inl e, w\<lparr>clock := Suc (clock w)\<rparr>)
      | None \<Rightarrow>
          (Inr (tmp_name env (clock w)),
           w\<lparr>clock := Suc (clock w), trace := trace w @ [MkTemp (tmp_name env (clock w))],
             tmp_dir := Some (tmp_name env (clock w)), tmp_files := []\<rparr>))"
  by (subst run_eq) (simp add: mkdtemp_def run_rules split: option.splits)

lemma with_temporary_directory_fault:
  "faults env (clock w) = Some e \<Longrightarrow>
     with_temporary_directory env body w = (Inl e, w\<lparr>clock := Suc (clock w)\<rparr>)"
  by (simp add: with_temporary_directory_def mkdtemp_eq)

lemma with_temporary_directory_body:
  "faults env (clock w) = None \<Longrightarrow>
     with_temporary_directory env body w =
       (let d = tmp_name env (clock w);
            run = body d (w\<lparr>clock := Suc (clock w), trace := trace w @ [MkTemp d],
                             tmp_dir := Some d, tmp_files := []\<rparr>)
        in (fst run, cleanup d (snd run)))"
  by (simp add: with_temporary_directory_def mkdtemp_eq Let_def split: prod.splits)

lemma fetch_event_quiet: "fetch_event ev \<Longrightarrow> quiet_event ev"
  by (cases ev) (simp_all add: fetch_event_def quiet_event_def)

lemma fetch_rel_grows_quiet: "fetch_rel w w' \<Longrightarrow> grows quiet_event w w'"
  unfolding fetch_rel_def by (blast intro: grows_weaken fetch_event_quiet)

lemma quiet_bind:
  assumes "keeps (grows quiet_event) m" and "\<And>x. keeps (grows quiet_event) (f x)"
  shows "keeps (grows quiet_event) (bind m f)"
proof (rule keeps_bind)
  fix a b c
  assume "grows quiet_event a b" "grows quiet_event b c"
  then show "grows quiet_event a c" by (rule grows_trans)
qed (use assms in auto)

lemma quiet_of_fetch: "keeps fetch_rel m \<Longrightarrow> keeps (grows quiet_event) m"
  by (erule keeps_weaken [rotated]) (rule fetch_rel_grows_quiet)

lemma quiet_pdf_output: "keeps (grows quiet_event) (pdf_output env pdf q)"
  by (simp add: keeps_def pdf_output_def grows_def quiet_event_def is_browser_new_def
      split: option.splits)

lemma quiet_create_pdf: "keeps (grows quiet_event) (create_pdf env d od name)"
  unfolding create_pdf_def Let_def
  by (intro quiet_bind quiet_pdf_output quiet_of_fetch fetch_glob fetch_add_images)

lemma quiet_attempt_body:
  "keeps (grows quiet_event)
     (bind (fetch_all env book page d) (\<lambda>_.
      bind (create_pdf env d od name) (\<lambda>_. return PyNone)))"
  by (intro quiet_bind quiet_create_pdf quiet_of_fetch fetch_fetch_all keeps_return grows_refl)

text \<open>
  Whatever happens, an attempt adds to the trace its first line and then events among which
  the only printed lines are progress lines; it closes no browser.
\<close>

lemma download_pdf_grows:
  assumes "download_pdf env book page od w = (r, w')"
  shows "\<exists>evs. trace w' = trace w @ Print (trying_line book page) # evs
           \<and> list_all quiet_event evs
           \<and> browsers w' = browsers w + length (filter is_browser_new evs)"
proof -
  let ?w1 = "w\<lparr>trace := trace w @ [Print (trying_line book page)]\<rparr>"
  let ?body = "\<lambda>d. bind (fetch_all env book page d) (\<lambda>_.
      bind (create_pdf env d od (pdf_name book page)) (\<lambda>_. return PyNone))"
  from assms have run: "with_temporary_directory env ?body ?w1 = (r, w')"
    by (simp add: download_pdf_fetch_all py_print_def bind_modify)
  have "grows quiet_event ?w1 w'"
  proof (cases "faults env (clock w)")
    case (Some e)
    with run show ?thesis
      by (auto simp: with_temporary_directory_fault grows_def)
  next
    case None
    let ?d = "tmp_name env (clock w)"
    let ?w2 = "?w1\<lparr>clock := Suc (clock ?w1), trace := trace ?w1 @ [MkTemp ?d],
                    tmp_dir := Some ?d, tmp_files := []\<rparr>"
    have 12: "grows quiet_event ?w1 ?w2"
      by (simp add: grows_def quiet_event_def is_browser_new_def)
    have 23: "grows quiet_event ?w2 (snd (?body ?d ?w2))"
      using quiet_attempt_body [of env book page ?d od "pdf_name book page"]
      by (simp add: keeps_def)
    have 34: "grows quiet_event (snd (?body ?d ?w2)) (cleanup ?d (snd (?body ?d ?w2)))"
      by (simp add: cleanup_def grows_def quiet_event_def is_browser_new_def)
    from None run have "w' = cleanup ?d (snd (?body ?d ?w2))"
      by (simp add: with_temporary_directory_body Let_def)
    with 12 23 34 show ?thesis
      by (blast intro: grows_trans)
  qed
  then show ?thesis
    by (auto simp: grows_def)
qed


lemma download_pdf_fault_at_start:
  assumes "faults env (clock w) = Some e"
  shows "download_pdf env book page od w
    = (Inl e, w\<lparr>clock := Suc (clock w), trace := trace w @ [Print (trying_line book page)]\<rparr>)"
  using assms
  by (simp add: download_pdf_fetch_all py_print_def bind_modify with_temporary_directory_fault)


section \<open>The files of the pages\<close>

lemma digit_char_not_slash: "d < 10 \<Longrightarrow> digit_char d \<noteq> CHR ''/''"
proof
  assume "d < 10" and "digit_char d = CHR ''/''"
  then have "of_char (digit_char d) = (of_char CHR ''/'' :: nat)" by simp
  with \<open>d < 10\<close> show False by (simp add: digit_char_code)
qed

lemma digits_no_slash: "CHR ''/'' \<notin> set (digits n)"
proof (induction n rule: digits.induct)
  case (1 n)
  show ?case
  proof (cases "n < 10")
    case True
    then show ?thesis
      using digit_char_not_slash [of n] by (subst digits.simps) auto
  next
    case False
    moreover have "digit_char (n mod 10) \<noteq> CHR ''/''"
      by (rule digit_char_not_slash) simp
    ultimately show ?thesis
      using "1.IH" by (subst digits.simps) auto
  qed
qed

lemma format_0d_no_slash: "CHR ''/'' \<notin> set (format_0d width n)"
  by (simp add: format_0d_def zfill_def digits_no_slash)

lemma dir_part_append:
  assumes "CHR ''/'' \<notin> set name"
  shows "dir_part (d @ CHR ''/'' # name) = d @ ''/''"
proof -
  have "dropWhile (\<lambda>c. c \<noteq> CHR ''/'') (rev name @ CHR ''/'' # rev d) = CHR ''/'' # rev d"
    using assms by (subst dropWhile_append2) auto
  then show ?thesis
    by (simp add: dir_part_def)
qed

lemma base_part_append:
  assumes "CHR ''/'' \<notin> set name"
  shows "base_part (d @ CHR ''/'' # name) = name"
proof -
  have "takeWhile (\<lambda>c. c \<noteq> CHR ''/'') (rev name @ CHR ''/'' # rev d) = rev name"
    using assms by (subst takeWhile_append2) auto
  then show ?thesis
    by (simp add: base_part_def)
qed

text \<open>
  With an absolute directory \<open>d\<close>, the file of a page is a file of \<open>d\<close>, and its name matches
  \<^verbatim>\<open>*.jpg\<close>.
\<close>

lemma file_path_in_dir:
  assumes "prefix ''/'' d"
  shows "\<exists>name. file_path d (page_name d b p i t) = d @ CHR ''/'' # name
           \<and> CHR ''/'' \<notin> set name \<and> name \<noteq> []
           \<and> suffix ''.jpg'' name \<and> \<not> prefix ''.'' name"
proof -
  let ?stem = "''bk_'' @ format_0d 6 b @ ''_pg_'' @ format_0d 6 p @ ''_'' @ format_0d 2 i
      @ ''_of_'' @ format_0d 2 t"
  let ?name = "?stem @ ''.jpg''"
  from assms have "file_path d (page_name d b p i t) = d @ CHR ''/'' # ?name"
    by (auto simp: file_path_def page_name_def os_path_join_def prefix_def)
  moreover have "CHR ''/'' \<notin> set ?name"
    by (simp add: format_0d_no_slash)
  moreover have "suffix ''.jpg'' ?name"
    by (rule suffixI) (rule refl)
  moreover have "?name \<noteq> []" "\<not> prefix ''.'' ?name"
    by simp_all
  ultimately show ?thesis
    by blast
qed

lemma file_path_parts:
  assumes "prefix ''/'' d"
  shows "dir_part (file_path d (page_name d b p i t)) = d @ ''/''"
    and "base_part (file_path d (page_name d b p i t)) \<noteq> []"
proof -
  obtain name where name: "file_path d (page_name d b p i t) = d @ CHR ''/'' # name"
    "CHR ''/'' \<notin> set name" "name \<noteq> []"
    using file_path_in_dir [OF assms, of b p i t] by blast
  show "dir_part (file_path d (page_name d b p i t)) = d @ ''/''"
    unfolding name(1) using name(2) by (rule dir_part_append)
  show "base_part (file_path d (page_name d b p i t)) \<noteq> []"
    unfolding name(1) using name(2,3) by (simp add: base_part_append)
qed

lemma glob_match_file_path:
  assumes "prefix ''/'' d" "\<not> suffix ''/'' d"
  shows "glob_match (os_path_join d ''*.jpg'') (file_path d (page_name d b p i t))"
proof -
  from assms have pat: "os_path_join d ''*.jpg'' = d @ CHR ''/'' # ''*.jpg''"
    by (auto simp: os_path_join_def)
  obtain name where name: "file_path d (page_name d b p i t) = d @ CHR ''/'' # name"
    "CHR ''/'' \<notin> set name" "suffix ''.jpg'' name" "\<not> prefix ''.'' name"
    using file_path_in_dir [OF assms(1), of b p i t] by blast
  have 1: "dir_part (d @ CHR ''/'' # ''*.jpg'') = d @ ''/''"
    by (rule dir_part_append) simp
  have 2: "base_part (d @ CHR ''/'' # ''*.jpg'') = ''*.jpg''"
    by (rule base_part_append) simp
  have 3: "dir_part (d @ CHR ''/'' # name) = d @ ''/''"
    using name(2) by (rule dir_part_append)
  have 4: "base_part (d @ CHR ''/'' # name) = name"
    using name(2) by (rule base_part_append)
  show ?thesis
    unfolding glob_match_def pat name(1) 1 2 3 4
    using name(3,4) by (simp add: fnmatch_def)
qed


section \<open>Runs in which no call raises\<close>

lemma nf_faults: "no_faults_from env n \<Longrightarrow> n \<le> k \<Longrightarrow> faults env k = None"
  by (simp add: no_faults_from_def)

lemma nf_later: "no_faults_from env n \<Longrightarrow> n \<le> m \<Longrightarrow> no_faults_from env m"
  by (simp add: no_faults_from_def)

lemma nf_fetch_rel:
  "no_faults_from env (clock w) \<Longrightarrow> fetch_rel w w' \<Longrightarrow> no_faults_from env (clock w')"
  by (auto simp: fetch_rel_def grows_def intro: nf_later)

lemma bind_run: "fst (m w) = Inr x \<Longrightarrow> bind m f w = f x (snd (m w))"
  by (cases "m w") (simp add: bind_def)

lemma bind_run_fst: "fst (m w) = Inr x \<Longrightarrow> fst (bind m f w) = fst (f x (snd (m w)))"
  by (simp add: bind_run)

lemma bind_run_snd: "fst (m w) = Inr x \<Longrightarrow> snd (bind m f w) = snd (f x (snd (m w)))"
  by (simp add: bind_run)

lemma download_loop_step:
  assumes "cur \<le> tot"
  shows "download_loop env s d b p tot cur =
     bind (bind (get_page_url env) (\<lambda>page_url.
           bind (download_image env s page_url d (page_name d b p cur tot) (cur, tot)) (\<lambda>_.
           if cur \<noteq> tot then go_to_next_page env else return ())))
       (\<lambda>_. download_loop env s d b p tot (cur + 1))"
  using assms by (subst download_loop.simps) (simp add: bind_assoc)

lemma download_loop_done:
  "\<not> cur \<le> tot \<Longrightarrow> download_loop env s d b p tot cur w = (Inr (), w)"
  by (subst download_loop.simps) (simp add: return_def)

text \<open>
  One turn of the loop when no call raises: the image the viewer shows is saved as the file
  of the page \<open>cur\<close>, and the viewer moves on unless \<open>cur\<close> is the last page.
\<close>

lemma download_turn_no_faults:
  fixes s :: session and b p cur tot :: int
  assumes nf: "no_faults_from env (clock w)" and td: "tmp_dir w = Some d" and ab: "prefix ''/'' d"
  defines "turn \<equiv> bind (get_page_url env) (\<lambda>page_url.
           bind (download_image env s page_url d (page_name d b p cur tot) (cur, tot)) (\<lambda>_.
           if cur \<noteq> tot then go_to_next_page env else return ()))"
  shows "fst (turn w) = Inr ()"
    and "tmp_files (snd (turn w)) =
      AList.update (file_path d (page_name d b p cur tot))
        (http_body env s (py_replace ''ZOOM=1'' ''ZOOM=6''
           (element_src env ''ImageViewer1_docImage'' (viewer_page w))))
        (tmp_files w)"
    and "viewer_page (snd (turn w)) = (if cur \<noteq> tot then viewer_page w + 1 else viewer_page w)"
    and "fetch_rel w (snd (turn w))"
proof -
  note run = run_rules call_defs get_page_url_def download_image_def go_to_next_page_def
    Let_def nf_faults [OF nf] file_path_parts [OF ab] td on_click_def
  show "fst (turn w) = Inr ()"
    unfolding turn_def by (subst run_eq) (simp add: run)
  show "tmp_files (snd (turn w)) =
      AList.update (file_path d (page_name d b p cur tot))
        (http_body env s (py_replace ''ZOOM=1'' ''ZOOM=6''
           (element_src env ''ImageViewer1_docImage'' (viewer_page w))))
        (tmp_files w)"
    unfolding turn_def by (subst run_eq) (simp add: run)
  show "viewer_page (snd (turn w)) = (if cur \<noteq> tot then viewer_page w + 1 else viewer_page w)"
    unfolding turn_def by (subst run_eq) (simp add: run)
  have "keeps fetch_rel turn"
    unfolding turn_def
    by (intro fetch_intros fetch_get_page_url fetch_download_image fetch_go_to_next_page)
  then show "fetch_rel w (snd (turn w))"
    by (simp add: keeps_def)
qed

lemma download_loop_no_faults:
  assumes "no_faults_from env (clock w)" and "tmp_dir w = Some d" and "prefix ''/'' d"
  shows "fst (download_loop env s d b p tot cur w) = Inr ()
    \<and> tmp_files (snd (download_loop env s d b p tot cur w)) =
        fold (\<lambda>i. AList.update (file_path d (page_name d b p i tot))
                (http_body env s (py_replace ''ZOOM=1'' ''ZOOM=6''
                   (element_src env ''ImageViewer1_docImage'' (viewer_page w + (i - cur))))))
          [cur..tot] (tmp_files w)"
  using assms
proof (induction env s d b p tot cur arbitrary: w rule: download_loop.induct)
  case (1 env s d b p tot cur)
  show ?case
  proof (cases "cur \<le> tot")
    case False
    then show ?thesis
      by (simp add: download_loop_done)
  next
    case True
    let ?turn = "bind (get_page_url env) (\<lambda>page_url.
           bind (download_image env s page_url d (page_name d b p cur tot) (cur, tot)) (\<lambda>_.
           if cur \<noteq> tot then go_to_next_page env else return ()))"
    define w3 where "w3 = snd (?turn w)"
    note turn = download_turn_no_faults [OF "1.prems", of s b p cur tot, folded w3_def]
    have nf3: "no_faults_from env (clock w3)"
      using "1.prems"(1) turn(4) by (rule nf_fetch_rel)
    have td3: "tmp_dir w3 = Some d"
      using turn(4) "1.prems"(2) by (simp add: fetch_rel_def)
    have eq: "download_loop env s d b p tot cur w = download_loop env s d b p tot (cur + 1) w3"
      unfolding w3_def
      by (simp add: download_loop_step [OF True] bind_run [of ?turn w "()", OF turn(1)])
    have IH: "fst (download_loop env s d b p tot (cur + 1) w3) = Inr ()
      \<and> tmp_files (snd (download_loop env s d b p tot (cur + 1) w3)) =
        fold (\<lambda>i. AList.update (file_path d (page_name d b p i tot))
                (http_body env s (py_replace ''ZOOM=1'' ''ZOOM=6''
                   (element_src env ''ImageViewer1_docImage'' (viewer_page w3 + (i - (cur + 1)))))))
          [cur + 1..tot] (tmp_files w3)"
      using True nf3 td3 "1.prems"(3) by (rule "1.IH")
    have rest: "fold (\<lambda>i. AList.update (file_path d (page_name d b p i tot))
                (http_body env s (py_replace ''ZOOM=1'' ''ZOOM=6''
                   (element_src env ''ImageViewer1_docImage'' (viewer_page w3 + (i - (cur + 1)))))))
          [cur + 1..tot] (tmp_files w3)
        = fold (\<lambda>i. AList.update (file_path d (page_name d b p i tot))
                (http_body env s (py_replace ''ZOOM=1'' ''ZOOM=6''
                   (element_src env ''ImageViewer1_docImage'' (viewer_page w + (i - cur))))))
          [cur + 1..tot] (tmp_files w3)"
    proof (cases "cur = tot")
      case True
      then show ?thesis by simp
    next
      case False
      with turn(3) have "viewer_page w3 = viewer_page w + 1"
        by simp
      then have vp: "viewer_page w3 + (i - (cur + 1)) = viewer_page w + (i - cur)" for i
        by simp
      show ?thesis unfolding vp by (rule refl)
    qed
    from True have "[cur..tot] = cur # [cur + 1..tot]"
      by (rule upto_rec1)
    with IH rest turn(2) show ?thesis
      unfolding eq by simp
  qed
qed


lemma fetch_all_nav:
  "fetch_all env b p d =
     bind (bind (browser_new env (resource_path env ''chromedriver'')) (\<lambda>_.
           bind (visit env ''http://titleview.org/plymouthdeeds/'') (\<lambda>_.
           bind (go_to_search_page env b) (\<lambda>_.
           bind (fill_in_search_terms env b p) (\<lambda>_.
           bind (select_document env) (\<lambda>_.
           bind (create_session env) (\<lambda>session.
           bind (get_number_of_pages env) (\<lambda>total_pages.
           return (session, total_pages)))))))))
       (\<lambda>(session, total_pages). download_loop env session d b p total_pages 1)"
  by (simp add: fetch_all_def bind_assoc bind_return [abs_def])

text \<open>
  When no call raises, the browser reaches the viewer on page 1 and the page count is read
  from the label shown there.
\<close>

lemma navigate_no_faults:
  fixes b p :: int
  assumes nf: "no_faults_from env (clock w)"
    and label: "py_int (last (py_split CHR '' '' (element_value env ''ImageViewer1_lblPageNum'' 1)))
      = Inr N"
  defines "nav \<equiv> bind (browser_new env (resource_path env ''chromedriver'')) (\<lambda>_.
           bind (visit env ''http://titleview.org/plymouthdeeds/'') (\<lambda>_.
           bind (go_to_search_page env b) (\<lambda>_.
           bind (fill_in_search_terms env b p) (\<lambda>_.
           bind (select_document env) (\<lambda>_.
           bind (create_session env) (\<lambda>session.
           bind (get_number_of_pages env) (\<lambda>total_pages.
           return (session, total_pages))))))))"
  shows "fst (nav w) = Inr (cookies env, N)"
    and "viewer_page (snd (nav w)) = 1"
    and "tmp_files (snd (nav w)) = tmp_files w"
    and "fetch_rel w (snd (nav w))"
proof -
  note run = run_rules call_defs go_to_search_page_def fill_in_search_terms_def
      select_document_def create_session_def get_number_of_pages_def resource_path_def
      Let_def nf_faults [OF nf] on_click_def label
  show "fst (nav w) = Inr (cookies env, N)"
    unfolding nav_def by (simp add: run)
  show "viewer_page (snd (nav w)) = 1"
    unfolding nav_def by (simp add: run)
  show "tmp_files (snd (nav w)) = tmp_files w"
    unfolding nav_def by (simp add: run)
  have "keeps fetch_rel nav"
    unfolding nav_def
    by (intro fetch_intros fetch_calls fetch_go_to_search_page fetch_fill_in_search_terms
        fetch_select_document fetch_create_session fetch_get_number_of_pages)
  then show "fetch_rel w (snd (nav w))"
    by (simp add: keeps_def)
qed

lemma fetch_all_no_faults:
  assumes nf: "no_faults_from env (clock w)" and td: "tmp_dir w = Some d" and ab: "prefix ''/'' d"
    and label: "py_int (last (py_split CHR '' '' (element_value env ''ImageViewer1_lblPageNum'' 1)))
      = Inr N"
  shows "fst (fetch_all env b p d w) = Inr ()"
    and "tmp_files (snd (fetch_all env b p d w)) =
        fold (\<lambda>i. AList.update (file_path d (page_name d b p i N))
                (http_body env (cookies env) (py_replace ''ZOOM=1'' ''ZOOM=6''
                   (element_src env ''ImageViewer1_docImage'' i))))
          [1..N] (tmp_files w)"
    and "fetch_rel w (snd (fetch_all env b p d w))"
proof -
  let ?nav = "bind (browser_new env (resource_path env ''chromedriver'')) (\<lambda>_.
           bind (visit env ''http://titleview.org/plymouthdeeds/'') (\<lambda>_.
           bind (go_to_search_page env b) (\<lambda>_.
           bind (fill_in_search_terms env b p) (\<lambda>_.
           bind (select_document env) (\<lambda>_.
           bind (create_session env) (\<lambda>session.
           bind (get_number_of_pages env) (\<lambda>total_pages.
           return (session, total_pages))))))))"
  define w1 where "w1 = snd (?nav w)"
  note nav = navigate_no_faults [OF nf label, of b p, folded w1_def]
  have nf1: "no_faults_from env (clock w1)"
    using nf nav(4) by (rule nf_fetch_rel)
  have td1: "tmp_dir w1 = Some d"
    using nav(4) td by (simp add: fetch_rel_def)
  have eq: "fetch_all env b p d w = download_loop env (cookies env) d b p N 1 w1"
    unfolding w1_def fetch_all_nav
    by (simp add: bind_run [of ?nav w "(cookies env, N)", OF nav(1)])
  note loop = download_loop_no_faults [OF nf1 td1 ab, of "cookies env" b p N 1]
  from loop show "fst (fetch_all env b p d w) = Inr ()"
    unfolding eq by simp
  from loop show "tmp_files (snd (fetch_all env b p d w)) =
        fold (\<lambda>i. AList.update (file_path d (page_name d b p i N))
                (http_body env (cookies env) (py_replace ''ZOOM=1'' ''ZOOM=6''
                   (element_src env ''ImageViewer1_docImage'' i))))
          [1..N] (tmp_files w)"
    unfolding eq by (simp add: nav(2,3))
  show "fetch_rel w (snd (fetch_all env b p d w))"
    using fetch_fetch_all [of env b p d] by (simp add: keeps_def)
qed

section \<open>Assembling the document when no call raises\<close>

lemma add_images_step:
  "add_images env (img # images) pdf =
     bind (bind (pdf_add_page env pdf) (\<lambda>pdf1.
           bind (pdf_image env pdf1 img) (\<lambda>pdf2.
           bind (os_remove env img) (\<lambda>_. return pdf2))))
       (\<lambda>pdf2. add_images env images pdf2)"
  by (simp add: bind_assoc bind_return [abs_def])

lemma add_one_image_no_faults:
  fixes pdf :: pdf
  assumes nf: "no_faults_from env (clock w)" and present: "map_of (tmp_files w) img = Some c"
  defines "one \<equiv> bind (pdf_add_page env pdf) (\<lambda>pdf1.
           bind (pdf_image env pdf1 img) (\<lambda>pdf2.
           bind (os_remove env img) (\<lambda>_. return pdf2)))"
  shows "fst (one w) = Inr (pdf @ [[(img, c)]])"
    and "tmp_files (snd (one w)) = AList.delete img (tmp_files w)"
    and "fetch_rel w (snd (one w))"
proof -
  note run = run_rules call_defs nf_faults [OF nf] present
  show "fst (one w) = Inr (pdf @ [[(img, c)]])"
    unfolding one_def by (simp add: run)
  show "tmp_files (snd (one w)) = AList.delete img (tmp_files w)"
    unfolding one_def by (simp add: run)
  have "keeps fetch_rel one"
    unfolding one_def by (intro fetch_intros fetch_calls)
  then show "fetch_rel w (snd (one w))"
    by (simp add: keeps_def)
qed

lemma add_images_no_faults:
  assumes "no_faults_from env (clock w)" and "distinct images"
    and "set images \<subseteq> fst ` set (tmp_files w)"
  shows "fst (add_images env images pdf w)
      = Inr (pdf @ map (\<lambda>q. [(q, the (map_of (tmp_files w) q))]) images)
    \<and> tmp_files (snd (add_images env images pdf w))
      = filter (\<lambda>kv. fst kv \<notin> set images) (tmp_files w)"
  using assms
proof (induction images arbitrary: pdf w)
  case Nil
  show ?case by (simp add: return_def)
next
  case (Cons img images)
  let ?one = "bind (pdf_add_page env pdf) (\<lambda>pdf1.
           bind (pdf_image env pdf1 img) (\<lambda>pdf2.
           bind (os_remove env img) (\<lambda>_. return pdf2)))"
  from Cons.prems(3) have "map_of (tmp_files w) img \<noteq> None"
    by (simp add: map_of_eq_None_iff)
  then obtain c where c: "map_of (tmp_files w) img = Some c"
    by auto
  define w3 where "w3 = snd (?one w)"
  note one = add_one_image_no_faults [OF Cons.prems(1) c, of pdf, folded w3_def]
  have nf3: "no_faults_from env (clock w3)"
    using Cons.prems(1) one(3) by (rule nf_fetch_rel)
  from Cons.prems(2) have dist: "distinct images" and notin: "img \<notin> set images"
    by simp_all
  have sub: "set images \<subseteq> fst ` set (tmp_files w3)"
  proof
    fix x
    assume x: "x \<in> set images"
    with Cons.prems(3) obtain v where "(x, v) \<in> set (tmp_files w)"
      by auto
    moreover from x notin have "x \<noteq> img"
      by auto
    ultimately have "(x, v) \<in> set (tmp_files w3)"
      unfolding one(2) by (simp add: AList.delete_eq)
    then show "x \<in> fst ` set (tmp_files w3)"
      by force
  qed
  have eq: "add_images env (img # images) pdf w = add_images env images (pdf @ [[(img, c)]]) w3"
    unfolding w3_def add_images_step
    by (simp add: bind_run [of ?one w "pdf @ [[(img, c)]]", OF one(1)])
  note IH = Cons.IH [OF nf3 dist sub, of "pdf @ [[(img, c)]]"]
  have same: "map (\<lambda>q. [(q, the (map_of (tmp_files w3) q))]) images
      = map (\<lambda>q. [(q, the (map_of (tmp_files w) q))]) images"
  proof (rule map_cong [OF refl])
    fix q
    assume "q \<in> set images"
    with notin have "q \<noteq> img"
      by auto
    then show "[(q, the (map_of (tmp_files w3) q))] = [(q, the (map_of (tmp_files w) q))]"
      unfolding one(2) by (simp add: map_of_delete)
  qed
  have del: "filter (\<lambda>kv. fst kv \<notin> set images) (tmp_files w3)
      = filter (\<lambda>kv. fst kv \<notin> set (img # images)) (tmp_files w)"
    unfolding one(2) by (auto simp: AList.delete_eq intro: filter_cong)
  from IH show ?case
    unfolding eq same del using c by simp
qed

lemma sort_sort_key: "sort (sort_key f xs) = sort xs"
  by (rule properties_for_sort) simp_all

lemma pdf_output_no_faults:
  assumes "no_faults_from env (clock w)"
  shows "pdf_output env pdf q w =
    (Inr (), w\<lparr>clock := Suc (clock w), trace := trace w @ [PdfOutput q],
               outputs := outputs w @ [(q, pdf_close pdf)]\<rparr>)"
  by (simp add: pdf_output_def nf_faults [OF assms])

lemma glob_no_faults:
  assumes "no_faults_from env (clock w)"
  shows "glob env pat w =
    (Inr (filter (glob_match pat) (sort_key (dir_rank env) (map fst (tmp_files w)))),
     w\<lparr>clock := Suc (clock w), trace := trace w @ [Glob pat]\<rparr>)"
  by (subst run_eq) (simp add: glob_def run_rules nf_faults [OF assms])

text \<open>
  When no call raises and the directory holds image files only, \<^verbatim>\<open>_create_pdf\<close> puts the
  files on one page each, in the order of their names, removes them, and writes the
  document (with one empty page when there was no file).
\<close>

lemma create_pdf_no_faults:
  assumes nf: "no_faults_from env (clock w)"
    and dist: "distinct (map fst (tmp_files w))"
    and jpgs: "\<forall>q \<in> fst ` set (tmp_files w). glob_match (os_path_join d ''*.jpg'') q"
  shows "fst (create_pdf env d od name w) = Inr ()"
    and "outputs (snd (create_pdf env d od name w)) = outputs w @
      [(od @ ''/'' @ name,
        pdf_close (map (\<lambda>q. [(q, the (map_of (tmp_files w) q))])
          (sort (map fst (tmp_files w)))))]"
    and "tmp_files (snd (create_pdf env d od name w)) = []"
proof -
  let ?pat = "os_path_join d ''*.jpg''"
  let ?images = "sort (map fst (tmp_files w))"
  let ?w1 = "w\<lparr>clock := Suc (clock w), trace := trace w @ [Glob ?pat]\<rparr>"
  let ?pdf = "map (\<lambda>q. [(q, the (map_of (tmp_files w) q))]) ?images"
  define w2 where "w2 = snd (add_images env ?images [] ?w1)"
  from jpgs have found: "filter (glob_match ?pat) (sort_key (dir_rank env) (map fst (tmp_files w)))
      = sort_key (dir_rank env) (map fst (tmp_files w))"
    by (intro filter_True) auto
  have nf1: "no_faults_from env (clock ?w1)"
    using nf by (rule nf_later) simp
  from dist have "distinct ?images" by simp
  moreover have "set ?images \<subseteq> fst ` set (tmp_files ?w1)" by simp
  ultimately have add: "fst (add_images env ?images [] ?w1) = Inr ?pdf"
      "tmp_files w2 = filter (\<lambda>kv. fst kv \<notin> set ?images) (tmp_files w)"
    unfolding w2_def using add_images_no_faults [OF nf1, of ?images "[]"] by simp_all
  have rel: "fetch_rel ?w1 w2"
    unfolding w2_def using fetch_add_images [of env ?images "[]"] by (simp add: keeps_def)
  have nf2: "no_faults_from env (clock w2)"
    using nf1 rel by (rule nf_fetch_rel)
  from rel have out2: "outputs w2 = outputs w"
    by (simp add: fetch_rel_def)
  have files2: "tmp_files w2 = []"
    unfolding add(2) by (auto simp: filter_empty_conv)
  have eq: "create_pdf env d od name w = pdf_output env ?pdf (od @ ''/'' @ name) w2"
    unfolding w2_def create_pdf_def Let_def
    by (simp add: bind_run [of "glob env ?pat" w, OF _] glob_no_faults [OF nf] found
        sort_sort_key bind_run [of "add_images env ?images []" ?w1 ?pdf, OF add(1)])
  show "fst (create_pdf env d od name w) = Inr ()"
    unfolding eq by (simp add: pdf_output_no_faults [OF nf2])
  show "outputs (snd (create_pdf env d od name w))
      = outputs w @ [(od @ ''/'' @ name, pdf_close ?pdf)]"
    unfolding eq by (simp add: pdf_output_no_faults [OF nf2] out2)
  show "tmp_files (snd (create_pdf env d od name w)) = []"
    unfolding eq by (simp add: pdf_output_no_faults [OF nf2] files2)
qed


section \<open>The files of different pages are different\<close>

lemma digit_value_digit_char: "d < 10 \<Longrightarrow> digit_value (digit_char d) = d"
  by (simp add: digit_value_def digit_char_code)

lemma digits_value_snoc: "digits_value (s @ [c]) = 10 * digits_value s + digit_value c"
  by (simp add: digits_value_def)

lemma digits_value_digits: "digits_value (digits n) = n"
proof (induction n rule: digits.induct)
  case (1 n)
  show ?case
  proof (cases "n < 10")
    case True
    then show ?thesis
      by (subst digits.simps) (simp add: digits_value_def digit_value_digit_char)
  next
    case False
    then have "digits n = digits (n div 10) @ [digit_char (n mod 10)]"
      by (subst digits.simps) simp
    with False "1.IH" show ?thesis
      by (simp add: digits_value_snoc digit_value_digit_char)
  qed
qed

lemma digits_value_zeros: "digits_value (replicate k CHR ''0'' @ s) = digits_value s"
proof -
  have "foldl (\<lambda>acc c. 10 * acc + digit_value c) 0 (replicate k CHR ''0'') = 0"
    by (induction k) (simp_all add: digit_value_def)
  then show ?thesis
    by (simp add: digits_value_def)
qed

lemma digits_value_format_0d: "0 \<le> n \<Longrightarrow> digits_value (format_0d width n) = nat n"
  by (simp add: format_0d_def zfill_def digits_value_zeros digits_value_digits)

lemma format_0d_inj:
  assumes "0 \<le> i" "0 \<le> j" "format_0d width i = format_0d width j"
  shows "i = j"
proof -
  from assms(3) have "digits_value (format_0d width i) = digits_value (format_0d width j)"
    by simp
  with assms(1,2) show ?thesis
    by (simp add: digits_value_format_0d)
qed

lemma file_path_inj:
  assumes "0 \<le> i" "0 \<le> j"
    and "file_path d (page_name d b p i t) = file_path d (page_name d b p j t)"
  shows "i = j"
proof -
  obtain P where P: "\<And>i. file_path d (page_name d b p i t)
      = P @ format_0d 2 i @ ''_of_'' @ format_0d 2 t @ ''.jpg''"
    using file_path_page_name [of d b p t] by blast
  define R where "R = ''_of_'' @ format_0d 2 t @ ''.jpg''"
  from assms(3) have "P @ format_0d 2 i @ R = P @ format_0d 2 j @ R"
    unfolding P R_def .
  then have "format_0d 2 i = format_0d 2 j"
    by simp
  with assms(1,2) show ?thesis
    by (rule format_0d_inj)
qed

lemma file_path_inj_on: "inj_on (\<lambda>i. file_path d (page_name d b p i t)) {0..}"
  by (rule inj_onI) (simp add: file_path_inj)

section \<open>The directory after the downloads\<close>

lemma update_fresh: "k \<notin> fst ` set al \<Longrightarrow> AList.update k v al = al @ [(k, v)]"
  by (induction al) auto

lemma fold_update_fresh:
  assumes "distinct (map k js)" and "\<forall>i \<in> set js. k i \<notin> fst ` set al"
  shows "fold (\<lambda>i. AList.update (k i) (v i)) js al = al @ map (\<lambda>i. (k i, v i)) js"
  using assms
proof (induction js arbitrary: al)
  case Nil
  show ?case by simp
next
  case (Cons j js)
  from Cons.prems have fresh: "k j \<notin> fst ` set al" and dist: "distinct (map k js)"
    and notin: "k j \<notin> k ` set js"
    by simp_all
  have "\<forall>i \<in> set js. k i \<notin> fst ` set (al @ [(k j, v j)])"
  proof
    fix i
    assume i: "i \<in> set js"
    with Cons.prems(2) have "k i \<notin> fst ` set al"
      by simp
    moreover from i notin have "k i \<noteq> k j"
      by (metis imageI)
    ultimately show "k i \<notin> fst ` set (al @ [(k j, v j)])"
      by simp
  qed
  with dist have "fold (\<lambda>i. AList.update (k i) (v i)) js (al @ [(k j, v j)])
      = (al @ [(k j, v j)]) @ map (\<lambda>i. (k i, v i)) js"
    by (rule Cons.IH)
  then show ?case
    by (simp add: update_fresh [OF fresh])
qed

lemma map_of_keyed:
  assumes "inj_on k (set js)" and "i \<in> set js"
  shows "map_of (map (\<lambda>i. (k i, v i)) js) (k i) = Some (v i)"
  using assms by (induction js) (auto simp: inj_on_def)

lemma distinct_upto_files:
  "distinct (map (\<lambda>i. file_path d (page_name d b p i t)) [1..N])"
proof -
  have "inj_on (\<lambda>i. file_path d (page_name d b p i t)) (set [1..N])"
    by (rule inj_on_subset [OF file_path_inj_on]) auto
  then show ?thesis
    by (simp add: distinct_map)
qed


section \<open>An attempt in which no call raises\<close>

lemma files_after_downloads:
  assumes "no_faults_from env (clock w)" and "tmp_dir w = Some d" and "prefix ''/'' d"
    and "label_count env = Inr N" and "tmp_files w = []"
  shows "fst (fetch_all env b p d w) = Inr ()"
    and "tmp_files (snd (fetch_all env b p d w)) = map (page_file env d b p N) [1..N]"
    and "fetch_rel w (snd (fetch_all env b p d w))"
proof -
  note all = fetch_all_no_faults [OF assms(1-3) assms(4) [unfolded label_count_def], of b p]
  show "fst (fetch_all env b p d w) = Inr ()"
    by (rule all(1))
  show "fetch_rel w (snd (fetch_all env b p d w))"
    by (rule all(3))
  have "fold (\<lambda>i. AList.update (file_path d (page_name d b p i N)) (page_image env i)) [1..N] []
      = [] @ map (\<lambda>i. (file_path d (page_name d b p i N), page_image env i)) [1..N]"
    by (rule fold_update_fresh) (simp_all add: distinct_upto_files)
  then show "tmp_files (snd (fetch_all env b p d w)) = map (page_file env d b p N) [1..N]"
    unfolding all(2) assms(5) page_image_def page_file_def [abs_def] by simp
qed

text \<open>
  The pages of the document are the files of the pages \<open>1\<close> to \<open>N\<close> in the order of their
  names: \<open>js\<close> is the list of the pages in that order.
\<close>

lemma pages_in_name_order:
  fixes env :: env and d :: string and b p N :: int
  assumes js: "mset js = mset [1..N]"
    and sorted: "sorted (map (\<lambda>i. file_path d (page_name d b p i N)) js)"
  defines "files \<equiv> map (page_file env d b p N) [1..N]"
  shows "map (\<lambda>q. [(q, the (map_of files q))]) (sort (map fst files))
    = map (\<lambda>i. [page_file env d b p N i]) js"
proof -
  let ?k = "\<lambda>i. file_path d (page_name d b p i N)"
  have keys: "map fst files = map ?k [1..N]"
    by (simp add: files_def page_file_def)
  have "mset (map ?k js) = mset (map ?k [1..N])"
    using js by (metis mset_map)
  with sorted have sort: "sort (map ?k [1..N]) = map ?k js"
    by (intro properties_for_sort) simp_all
  have inj: "inj_on ?k (set [1..N])"
    by (rule inj_on_subset [OF file_path_inj_on]) auto
  have "map_of files (?k i) = Some (page_image env i)" if "i \<in> set js" for i
  proof -
    from js that have "i \<in> set [1..N]"
      by (metis set_mset_mset)
    with inj show ?thesis
      unfolding files_def page_file_def [abs_def] by (rule map_of_keyed)
  qed
  then show ?thesis
    unfolding keys sort by (simp add: page_file_def)
qed

lemma download_pdf_no_faults:
  assumes nf: "no_faults_from env (clock w)"
    and N: "label_count env = Inr N"
    and ab: "prefix ''/'' (tmp_name env (clock w))"
    and ns: "\<not> suffix ''/'' (tmp_name env (clock w))"
    and js: "mset js = mset [1..N]"
    and sorted: "sorted (map (\<lambda>i. file_path (tmp_name env (clock w))
        (page_name (tmp_name env (clock w)) b p i N)) js)"
  shows "fst (download_pdf env b p od w) = Inr PyNone"
    and "outputs (snd (download_pdf env b p od w)) = outputs w @
      [(artifact_path od b p,
        pdf_close (map (\<lambda>i. [page_file env (tmp_name env (clock w)) b p N i]) js))]"
proof -
  let ?d = "tmp_name env (clock w)"
  let ?body = "\<lambda>d. bind (fetch_all env b p d) (\<lambda>_.
      bind (create_pdf env d od (pdf_name b p)) (\<lambda>_. return PyNone))"
  define w2 where "w2 = w\<lparr>trace := trace w @ [Print (trying_line b p)],
      clock := Suc (clock w), trace := (trace w @ [Print (trying_line b p)]) @ [MkTemp ?d],
      tmp_dir := Some ?d, tmp_files := []\<rparr>"
  define w3 where "w3 = snd (fetch_all env b p ?d w2)"
  define w4 where "w4 = snd (create_pdf env ?d od (pdf_name b p) w3)"
  have w2: "clock w2 = Suc (clock w)" "tmp_dir w2 = Some ?d" "tmp_files w2 = []"
      "outputs w2 = outputs w"
    by (simp_all add: w2_def)
  have f0: "faults env (clock w) = None"
    using nf by (rule nf_faults) simp
  have nf2: "no_faults_from env (clock w2)"
    using nf by (rule nf_later) (simp add: w2)
  note fetch = files_after_downloads [OF nf2 w2(2) ab N w2(3), of b p, folded w3_def]
  have nf3: "no_faults_from env (clock w3)"
    using nf2 fetch(3) by (rule nf_fetch_rel)
  from fetch(3) have out3: "outputs w3 = outputs w"
    by (simp add: fetch_rel_def w2)
  have dist: "distinct (map fst (tmp_files w3))"
    unfolding fetch(2) using distinct_upto_files [of ?d b p N]
    by (simp add: page_file_def [abs_def] comp_def)
  have jpgs: "\<forall>q \<in> fst ` set (tmp_files w3). glob_match (os_path_join ?d ''*.jpg'') q"
    unfolding fetch(2) using glob_match_file_path [OF ab ns]
    by (auto simp: page_file_def)
  note pdf = create_pdf_no_faults [OF nf3 dist jpgs, of od "pdf_name b p", folded w4_def]
  have run: "?body ?d w2 = (Inr PyNone, w4)"
    unfolding w4_def w3_def
    by (simp add: bind_run [of "fetch_all env b p ?d" w2 "()", OF fetch(1)]
        bind_run [of "create_pdf env ?d od (pdf_name b p)" _ "()", OF pdf(1) [unfolded w3_def]]
        return_def)
  have eq: "download_pdf env b p od w = (Inr PyNone, cleanup ?d w4)"
    using f0 run [unfolded w2_def]
    by (simp add: download_pdf_fetch_all py_print_def bind_modify trying_line_def
        with_temporary_directory_body Let_def)
  show "fst (download_pdf env b p od w) = Inr PyNone"
    unfolding eq by simp
  have "outputs w4 = outputs w @
      [(artifact_path od b p, pdf_close (map (\<lambda>i. [page_file env ?d b p N i]) js))]"
    unfolding pdf(2) fetch(2) out3 artifact_path_def
    using pages_in_name_order [OF js sorted, of env] by simp
  then show "outputs (snd (download_pdf env b p od w)) = outputs w @
      [(artifact_path od b p, pdf_close (map (\<lambda>i. [page_file env ?d b p N i]) js))]"
    unfolding eq by (simp add: cleanup_def)
qed


section \<open>The retries\<close>

lemma main_loop_success:
  assumes "retries \<le> MAX_RETRIES" and "download_pdf env b p dd w = (Inr v, w1)"
  shows "main_loop env b p dd retries w = (Inr PyNone, w1\<lparr>trace := trace w1 @ [Print ''Success!'']\<rparr>)"
  using assms
  by (subst main_loop.simps)
     (simp add: try_except_def bind_def py_print_def modify_def return_def)

lemma main_loop_failure:
  assumes "retries \<le> MAX_RETRIES" and "download_pdf env b p dd w = (Inl ex, w1)"
  shows "main_loop env b p dd retries w = main_loop env b p dd (retries + 1) (report_error ex w1)"
  using assms
  by (subst main_loop.simps)
     (simp add: try_except_def bind_def py_print_def modify_def report_error_def)

lemma main_loop_exhausted:
  assumes "\<not> retries \<le> MAX_RETRIES"
  shows "main_loop env b p dd retries w =
    (Inl (Exn ValueError
       ''Unable to obtain document. Confirm the book and page numbers entered are valid''), w)"
  using assms by (subst main_loop.simps) (simp add: throw_def)

lemma main_loop_failed_attempts:
  assumes "failed_attempts env b p dd k w = Some wk"
    and "retries + int k \<le> MAX_RETRIES + 1"
  shows "main_loop env b p dd retries w = main_loop env b p dd (retries + int k) wk"
  using assms
proof (induction k arbitrary: retries w)
  case 0
  then show ?case by simp
next
  case (Suc k)
  from Suc.prems(1) obtain ex where ex: "fst (download_pdf env b p dd w) = Inl ex"
    and rest: "failed_attempts env b p dd k
        (report_error ex (snd (download_pdf env b p dd w))) = Some wk"
    by (auto split: sum.splits)
  from ex have run: "download_pdf env b p dd w = (Inl ex, snd (download_pdf env b p dd w))"
    by (simp add: prod_eq_iff)
  from Suc.prems(2) have le: "retries \<le> MAX_RETRIES" and le': "(retries + 1) + int k \<le> MAX_RETRIES + 1"
    by simp_all
  have "main_loop env b p dd retries w
      = main_loop env b p dd (retries + 1) (report_error ex (snd (download_pdf env b p dd w)))"
    using le run by (rule main_loop_failure)
  also have "\<dots> = main_loop env b p dd ((retries + 1) + int k) wk"
    using rest le' by (rule Suc.IH)
  finally show ?case
    by (simp add: add.assoc)
qed

subsection \<open>What the attempts print\<close>

lemma count_quiet:
  assumes "list_all quiet_event evs" and "\<not> quiet_event ev"
  shows "count_list evs ev = 0"
  using assms by (induction evs) auto

lemma not_quiet:
  "\<not> quiet_event (Print (trying_line b p))"
  "\<not> quiet_event (Print ''Success!'')"
  "\<not> quiet_event (Print ''Error! Retrying'')"
  by (simp_all add: quiet_event_def trying_line_def)

lemma attempt_lines:
  assumes "download_pdf env b p dd w = (r, w')"
  shows "\<exists>evs. trace w' = trace w @ evs
    \<and> count_list evs (Print (trying_line b p)) = 1
    \<and> count_list evs (Print ''Success!'') = 0
    \<and> count_list evs (Print ''Error! Retrying'') = 0"
proof -
  from download_pdf_grows [OF assms] obtain evs
    where evs: "trace w' = trace w @ Print (trying_line b p) # evs" "list_all quiet_event evs"
    by blast
  have "Print (trying_line b p) \<noteq> Print ''Success!''"
    "Print (trying_line b p) \<noteq> Print ''Error! Retrying''"
    by (simp_all add: trying_line_def)
  with evs show ?thesis
    by (intro exI [of _ "Print (trying_line b p) # evs"]) (simp add: count_quiet not_quiet)
qed

lemma failed_attempts_lines:
  assumes "failed_attempts env b p dd k w = Some wk"
  shows "\<exists>evs. trace wk = trace w @ evs
    \<and> count_list evs (Print (trying_line b p)) = k
    \<and> count_list evs (Print ''Success!'') = 0
    \<and> count_list evs (Print ''Error! Retrying'') = k"
  using assms
proof (induction k arbitrary: w)
  case 0
  then show ?case by simp
next
  case (Suc k)
  let ?w1 = "snd (download_pdf env b p dd w)"
  from Suc.prems obtain ex where ex: "fst (download_pdf env b p dd w) = Inl ex"
    and rest: "failed_attempts env b p dd k (report_error ex ?w1) = Some wk"
    by (auto split: sum.splits)
  from ex have run: "download_pdf env b p dd w = (Inl ex, ?w1)"
    by (simp add: prod_eq_iff)
  from attempt_lines [OF run] obtain evs1 where evs1: "trace ?w1 = trace w @ evs1"
    "count_list evs1 (Print (trying_line b p)) = 1"
    "count_list evs1 (Print ''Success!'') = 0"
    "count_list evs1 (Print ''Error! Retrying'') = 0"
    by blast
  from Suc.IH [OF rest] obtain evs2 where evs2: "trace wk = trace (report_error ex ?w1) @ evs2"
    "count_list evs2 (Print (trying_line b p)) = k"
    "count_list evs2 (Print ''Success!'') = 0"
    "count_list evs2 (Print ''Error! Retrying'') = k"
    by blast
  let ?report = "[Print ''Error! Retrying'',
      Print (''Exception:'' @ [CHR 0x0A] @ str_exn ex @ [CHR 0x0A])]"
  have report: "count_list ?report (Print (trying_line b p)) = 0"
    "count_list ?report (Print ''Success!'') = 0"
    "count_list ?report (Print ''Error! Retrying'') = 1"
    by (simp_all add: trying_line_def)
  have "trace wk = trace w @ (evs1 @ ?report @ evs2)"
    using evs1(1) evs2(1) by (simp add: report_error_def)
  moreover have "count_list (evs1 @ ?report @ evs2) (Print (trying_line b p)) = Suc k"
    unfolding count_list_append evs1 evs2 report by simp
  moreover have "count_list (evs1 @ ?report @ evs2) (Print ''Success!'') = 0"
    unfolding count_list_append evs1 evs2 report by simp
  moreover have "count_list (evs1 @ ?report @ evs2) (Print ''Error! Retrying'') = Suc k"
    unfolding count_list_append evs1 evs2 report by simp
  ultimately show ?case
    by blast
qed

lemma new_events_append: "trace w' = trace w @ evs \<Longrightarrow> new_events w w' = evs"
  by (simp add: new_events_def)

section \<open>A successful attempt\<close>

lemma pdf_output_Inr:
  assumes "pdf_output env pdf q w = (Inr u, w')"
  shows "outputs w' = outputs w @ [(q, pdf_close pdf)]"
  using assms by (auto simp: pdf_output_def split: option.splits)

lemma pdf_output_Inl:
  assumes "pdf_output env pdf q w = (Inl e, w')"
  shows "outputs w' = outputs w"
  using assms by (auto simp: pdf_output_def split: option.splits)

lemma create_pdf_Inr:
  assumes "create_pdf env d od name w = (Inr u, w')"
  shows "\<exists>pdf. outputs w' = outputs w @ [(od @ ''/'' @ name, pdf)]"
proof -
  from assms obtain found w1 pdf w2
    where 1: "glob env (os_path_join d ''*.jpg'') w = (Inr found, w1)"
      and 2: "add_images env (sort found) [] w1 = (Inr pdf, w2)"
      and 3: "pdf_output env pdf (od @ ''/'' @ name) w2 = (Inr u, w')"
    unfolding create_pdf_def Let_def bind_Inr_iff by blast
  from keepsD [OF fetch_glob 1] keepsD [OF fetch_add_images 2]
  have "outputs w2 = outputs w"
    by (simp add: fetch_rel_def)
  with pdf_output_Inr [OF 3] show ?thesis
    by auto
qed

lemma create_pdf_Inl:
  assumes "create_pdf env d od name w = (Inl e, w')"
  shows "outputs w' = outputs w"
proof -
  let ?pat = "os_path_join d ''*.jpg''"
  let ?path = "od @ ''/'' @ name"
  from assms consider
      (glob) "glob env ?pat w = (Inl e, w')"
    | (add) found w1 where "glob env ?pat w = (Inr found, w1)"
        "add_images env (sort found) [] w1 = (Inl e, w')"
    | (out) found w1 pdf w2 where "glob env ?pat w = (Inr found, w1)"
        "add_images env (sort found) [] w1 = (Inr pdf, w2)"
        "pdf_output env pdf ?path w2 = (Inl e, w')"
    unfolding create_pdf_def Let_def bind_Inl_iff by blast
  then show ?thesis
  proof cases
    case glob
    from keepsD [OF fetch_glob this] show ?thesis
      by (simp add: fetch_rel_def)
  next
    case add
    from keepsD [OF fetch_glob add(1)] keepsD [OF fetch_add_images add(2)] show ?thesis
      by (simp add: fetch_rel_def)
  next
    case out
    from keepsD [OF fetch_glob out(1)] keepsD [OF fetch_add_images out(2)]
      pdf_output_Inl [OF out(3)]
    show ?thesis
      by (simp add: fetch_rel_def)
  qed
qed

lemma download_pdf_Inr:
  assumes "download_pdf env b p od w = (Inr v, w')"
  shows "v = PyNone" and "\<exists>pdf. outputs w' = outputs w @ [(artifact_path od b p, pdf)]"
proof -
  let ?d = "tmp_name env (clock w)"
  let ?body = "\<lambda>d. bind (fetch_all env b p d) (\<lambda>_.
      bind (create_pdf env d od (pdf_name b p)) (\<lambda>_. return PyNone))"
  define w2 where "w2 = w\<lparr>trace := trace w @ [Print (trying_line b p)],
      clock := Suc (clock w), trace := (trace w @ [Print (trying_line b p)]) @ [MkTemp ?d],
      tmp_dir := Some ?d, tmp_files := []\<rparr>"
  have out2: "outputs w2 = outputs w"
    by (simp add: w2_def)
  from assms have run: "with_temporary_directory env ?body
      (w\<lparr>trace := trace w @ [Print (trying_line b p)]\<rparr>) = (Inr v, w')"
    by (simp add: download_pdf_fetch_all py_print_def bind_modify)
  have f0: "faults env (clock w) = None"
  proof (cases "faults env (clock w)")
    case (Some e)
    with run show ?thesis
      by (simp add: with_temporary_directory_fault)
  qed simp
  with run have body: "fst (?body ?d w2) = Inr v" and w': "w' = cleanup ?d (snd (?body ?d w2))"
    by (simp_all add: with_temporary_directory_body Let_def w2_def)
  from body have "?body ?d w2 = (Inr v, snd (?body ?d w2))"
    by (simp add: prod_eq_iff)
  then obtain x wa y wb where 1: "fetch_all env b p ?d w2 = (Inr x, wa)"
    and 2: "create_pdf env ?d od (pdf_name b p) wa = (Inr y, wb)"
    and 3: "return PyNone wb = (Inr v, snd (?body ?d w2))"
    unfolding bind_Inr_iff by blast
  from 3 show "v = PyNone"
    by (simp add: return_def)
  from 3 have wb: "snd (?body ?d w2) = wb"
    by (simp add: return_def)
  from keepsD [OF fetch_fetch_all 1] have "outputs wa = outputs w"
    by (simp add: fetch_rel_def out2)
  with create_pdf_Inr [OF 2] obtain pdf
    where "outputs wb = outputs w @ [(od @ ''/'' @ pdf_name b p, pdf)]"
    by auto
  then show "\<exists>pdf. outputs w' = outputs w @ [(artifact_path od b p, pdf)]"
    unfolding w' wb by (simp add: cleanup_def artifact_path_def)
qed


section \<open>The order of the names\<close>

lemma file_path_mono:
  assumes "0 \<le> i" "i < j" "j < 100"
  shows "file_path d (page_name d b p i t) < file_path d (page_name d b p j t)"
proof -
  obtain P where P: "\<And>i. file_path d (page_name d b p i t)
      = P @ format_0d 2 i @ ''_of_'' @ format_0d 2 t @ ''.jpg''"
    using file_path_page_name [of d b p t] by blast
  from assms have "format_0d 2 i < format_0d 2 j"
    by (rule format_0d_2_less)
  moreover from assms have "length (format_0d 2 i) = length (format_0d 2 j)"
    by (simp add: format_0d_two_digits)
  ultimately show ?thesis
    unfolding P less_append_common by (rule append_less_same_length [rotated])
qed

lemma sorted_files_upto:
  assumes "0 \<le> i" "j < 100"
  shows "sorted (map (\<lambda>i. file_path d (page_name d b p i t)) [i..j])"
proof -
  have "sorted_wrt (\<lambda>x y. file_path d (page_name d b p x t) \<le> file_path d (page_name d b p y t))
      [i..j]"
  proof (rule sorted_wrt_mono_rel [of _ "(<)"])
    fix x y
    assume "x \<in> set [i..j]" "y \<in> set [i..j]" "x < y"
    with assms have "0 \<le> x" "x < y" "y < 100"
      by simp_all
    then show "file_path d (page_name d b p x t) \<le> file_path d (page_name d b p y t)"
      by (rule less_imp_le [OF file_path_mono])
  next
    show "sorted_wrt (<) [i..j]"
      by (rule sorted_wrt_upto)
  qed
  then show ?thesis
    by (simp add: sorted_map)
qed

section \<open>The sample world\<close>

lemma sample_tmp_name:
  "prefix ''/'' (tmp_name (sample_env l f) k)" "\<not> suffix ''/'' (tmp_name (sample_env l f) k)"
  by (simp_all add: sample_env_sel suffix_to_prefix)

lemma sample_label_count:
  "label_count (sample_env ''Page 1 of 0'' f) = Inr 0"
  "label_count (sample_env ''Page 1 of 2'' f) = Inr 2"
  "label_count (sample_env ''Page 1 of 3'' f) = Inr 3"
  "label_count (sample_env ''Page 1 of 100'' f) = Inr 100"
  by (simp_all add: label_count_def sample_env_sel py_int_def py_strip_def is_space_def
      is_digit_def digits_value_def digit_value_def Let_def)


section \<open>Attempts with fewer than 100 pages, and with none\<close>

lemma download_pdf_small:
  assumes "no_faults_from env (clock w)" and "label_count env = Inr N"
    and "prefix ''/'' (tmp_name env (clock w))" and "\<not> suffix ''/'' (tmp_name env (clock w))"
    and "N < 100"
  shows "fst (download_pdf env b p od w) = Inr PyNone"
    and "outputs (snd (download_pdf env b p od w)) = outputs w @
      [(artifact_path od b p,
        pdf_close (map (\<lambda>i. [page_file env (tmp_name env (clock w)) b p N i]) [1..N]))]"
proof -
  have "sorted (map (\<lambda>i. file_path (tmp_name env (clock w))
        (page_name (tmp_name env (clock w)) b p i N)) [1..N])"
    using assms(5) by (intro sorted_files_upto) simp_all
  note run = download_pdf_no_faults [OF assms(1-4) refl this, of od]
  show "fst (download_pdf env b p od w) = Inr PyNone"
    by (rule run(1))
  show "outputs (snd (download_pdf env b p od w)) = outputs w @
      [(artifact_path od b p,
        pdf_close (map (\<lambda>i. [page_file env (tmp_name env (clock w)) b p N i]) [1..N]))]"
    by (rule run(2))
qed

lemma bind_download_loop_done:
  "\<not> cur \<le> tot \<Longrightarrow> bind (download_loop env s d b p tot cur) f w = f () w"
  by (simp add: bind_def download_loop_done)

text \<open>
  What is done between the creation and the removal of the temporary directory when the
  label stands for a number below 1 and no call raises. The program adds no page; the
  document is written with the one empty page that closing it adds.
\<close>

lemma zero_pages_body:
  fixes b p :: int and d od :: string
  assumes nf: "no_faults_from env (clock w)" and N: "label_count env = Inr N" and "N < 1"
    and empty: "tmp_files w = []"
  defines "body \<equiv> bind (fetch_all env b p d) (\<lambda>_.
      bind (create_pdf env d od (pdf_name b p)) (\<lambda>_. return PyNone))"
  shows "fst (body w) = Inr PyNone"
    and "trace (snd (body w)) = trace w @
      [BrowserNew (resource_path env ''chromedriver''),
       Visit ''http://titleview.org/plymouthdeeds/'',
       MouseOver ''Navigator1_SearchCriteria1_menuLabel'',
       Click (if b < 2393 then ''Navigator1_SearchCriteria1_LinkButton02''
              else ''Navigator1_SearchCriteria1_LinkButton01''),
       Fill ''SearchFormEx1$ACSTextBox_Book'' b,
       Fill ''SearchFormEx1$ACSTextBox_PageNumber'' p,
       Click ''SearchFormEx1_btnSearch'',
       Click ''DocList1_GridView_Document_ctl02_ButtonRow_Book_0'',
       Click ''TabController1_ImageViewertabitem'',
       SwitchWindow,
       GetCookies,
       ReadValue ''ImageViewer1_lblPageNum'',
       Glob (os_path_join d ''*.jpg''),
       PdfOutput (artifact_path od b p)]"
    and "outputs (snd (body w)) = outputs w @ [(artifact_path od b p, [[]])]"
proof -
  from \<open>N < 1\<close> have stop: "\<not> 1 \<le> N"
    by simp
  note run = run_rules call_defs fetch_all_def create_pdf_def go_to_search_page_def
      fill_in_search_terms_def select_document_def create_session_def get_number_of_pages_def
      Let_def nf_faults [OF nf] on_click_def N [unfolded label_count_def]
      bind_download_loop_done [OF stop] artifact_path_def empty pdf_close_def
  show "fst (body w) = Inr PyNone"
    unfolding body_def by (subst run_eq) (simp add: run)
  show "trace (snd (body w)) = trace w @
      [BrowserNew (resource_path env ''chromedriver''),
       Visit ''http://titleview.org/plymouthdeeds/'',
       MouseOver ''Navigator1_SearchCriteria1_menuLabel'',
       Click (if b < 2393 then ''Navigator1_SearchCriteria1_LinkButton02''
              else ''Navigator1_SearchCriteria1_LinkButton01''),
       Fill ''SearchFormEx1$ACSTextBox_Book'' b,
       Fill ''SearchFormEx1$ACSTextBox_PageNumber'' p,
       Click ''SearchFormEx1_btnSearch'',
       Click ''DocList1_GridView_Document_ctl02_ButtonRow_Book_0'',
       Click ''TabController1_ImageViewertabitem'',
       SwitchWindow,
       GetCookies,
       ReadValue ''ImageViewer1_lblPageNum'',
       Glob (os_path_join d ''*.jpg''),
       PdfOutput (artifact_path od b p)]"
    unfolding body_def by (subst run_eq) (simp add: run)
  show "outputs (snd (body w)) = outputs w @ [(artifact_path od b p, [[]])]"
    unfolding body_def by (subst run_eq) (simp add: run)
qed

lemma zero_pages_run:
  assumes nf: "no_faults_from env (clock w)" and N: "label_count env = Inr N" and "N < 1"
  shows "fst (download_pdf env b p od w) = Inr PyNone"
    and "trace (snd (download_pdf env b p od w)) = trace w @
      [Print (trying_line b p),
       MkTemp (tmp_name env (clock w)),
       BrowserNew (resource_path env ''chromedriver''),
       Visit ''http://titleview.org/plymouthdeeds/'',
       MouseOver ''Navigator1_SearchCriteria1_menuLabel'',
       Click (if b < 2393 then ''Navigator1_SearchCriteria1_LinkButton02''
              else ''Navigator1_SearchCriteria1_LinkButton01''),
       Fill ''SearchFormEx1$ACSTextBox_Book'' b,
       Fill ''SearchFormEx1$ACSTextBox_PageNumber'' p,
       Click ''SearchFormEx1_btnSearch'',
       Click ''DocList1_GridView_Document_ctl02_ButtonRow_Book_0'',
       Click ''TabController1_ImageViewertabitem'',
       SwitchWindow,
       GetCookies,
       ReadValue ''ImageViewer1_lblPageNum'',
       Glob (os_path_join (tmp_name env (clock w)) ''*.jpg''),
       PdfOutput (artifact_path od b p),
       RmTemp (tmp_name env (clock w))]"
    and "outputs (snd (download_pdf env b p od w)) = outputs w @ [(artifact_path od b p, [[]])]"
proof -
  let ?d = "tmp_name env (clock w)"
  let ?body = "bind (fetch_all env b p ?d) (\<lambda>_.
      bind (create_pdf env ?d od (pdf_name b p)) (\<lambda>_. return PyNone))"
  define w2 where "w2 = w\<lparr>trace := trace w @ [Print (trying_line b p)],
      clock := Suc (clock w), trace := (trace w @ [Print (trying_line b p)]) @ [MkTemp ?d],
      tmp_dir := Some ?d, tmp_files := []\<rparr>"
  have w2: "clock w2 = Suc (clock w)" "outputs w2 = outputs w"
      "trace w2 = trace w @ [Print (trying_line b p), MkTemp ?d]" "tmp_files w2 = []"
    by (simp_all add: w2_def)
  have f0: "faults env (clock w) = None"
    using nf by (rule nf_faults) simp
  have nf2: "no_faults_from env (clock w2)"
    using nf by (rule nf_later) (simp add: w2)
  note body = zero_pages_body [OF nf2 N \<open>N < 1\<close> w2(4), of b p ?d od]
  have eq: "download_pdf env b p od w = (fst (?body w2), cleanup ?d (snd (?body w2)))"
    using f0 unfolding w2_def
    by (simp add: download_pdf_fetch_all py_print_def bind_modify
        with_temporary_directory_body Let_def)
  show "fst (download_pdf env b p od w) = Inr PyNone"
    unfolding eq using body(1) by simp
  show "outputs (snd (download_pdf env b p od w)) = outputs w @ [(artifact_path od b p, [[]])]"
    unfolding eq using body(3) by (simp add: cleanup_def w2)
  show "trace (snd (download_pdf env b p od w)) = trace w @
      [Print (trying_line b p),
       MkTemp (tmp_name env (clock w)),
       BrowserNew (resource_path env ''chromedriver''),
       Visit ''http://titleview.org/plymouthdeeds/'',
       MouseOver ''Navigator1_SearchCriteria1_menuLabel'',
       Click (if b < 2393 then ''Navigator1_SearchCriteria1_LinkButton02''
              else ''Navigator1_SearchCriteria1_LinkButton01''),
       Fill ''SearchFormEx1$ACSTextBox_Book'' b,
       Fill ''SearchFormEx1$ACSTextBox_PageNumber'' p,
       Click ''SearchFormEx1_btnSearch'',
       Click ''DocList1_GridView_Document_ctl02_ButtonRow_Book_0'',
       Click ''TabController1_ImageViewertabitem'',
       SwitchWindow,
       GetCookies,
       ReadValue ''ImageViewer1_lblPageNum'',
       Glob (os_path_join (tmp_name env (clock w)) ''*.jpg''),
       PdfOutput (artifact_path od b p),
       RmTemp (tmp_name env (clock w))]"
    unfolding eq using body(2) by (simp add: cleanup_def w2)
qed


lemma sample_no_faults: "no_faults_from (sample_env l (\<lambda>_. None)) n"
  by (simp add: no_faults_from_def sample_env_sel)

lemma sample_two_pages:
  assumes "no_faults_from (sample_env ''Page 1 of 2'' f) (clock w)"
  shows "fst (download_pdf (sample_env ''Page 1 of 2'' f) b p od w) = Inr PyNone"
  using assms sample_label_count(2) sample_tmp_name
  by (rule download_pdf_small) simp

lemma run_pair:
  "fst (download_pdf env b p od w) = r \<Longrightarrow>
     download_pdf env b p od w = (r, snd (download_pdf env b p od w))"
  by (simp add: prod_eq_iff)

section \<open>Claims about the attempt and the retries\<close>

text \<open>
  C10. When no call raises and the label of the viewer stands for a number below 1, the
  attempt returns without an exception. Between the start of the browser and the removal of
  the temporary directory it reads the label, looks for image files and writes the document:
  it reads no image address, fetches and saves no image, never clicks the button for the next
  page, and calls neither \<^verbatim>\<open>add_page\<close> nor \<^verbatim>\<open>image\<close>. The document it writes is not without
  pages: it has exactly one page, with nothing on it, the page that \<^verbatim>\<open>output\<close> adds to a
  document that has none. \<^verbatim>\<open>main\<close> then prints \<^verbatim>\<open>Success!\<close> and returns.
\<close>

theorem zero_pages_attempt:
  assumes "no_faults_from env (clock w)" and "label_count env = Inr N" and "N < 1"
  shows "fst (download_pdf env book page od w) = Inr PyNone
    \<and> new_events w (snd (download_pdf env book page od w)) =
        [Print (trying_line book page),
         MkTemp (tmp_name env (clock w)),
         BrowserNew (resource_path env ''chromedriver''),
         Visit ''http://titleview.org/plymouthdeeds/'',
         MouseOver ''Navigator1_SearchCriteria1_menuLabel'',
         Click (if book < 2393 then ''Navigator1_SearchCriteria1_LinkButton02''
                else ''Navigator1_SearchCriteria1_LinkButton01''),
         Fill ''SearchFormEx1$ACSTextBox_Book'' book,
         Fill ''SearchFormEx1$ACSTextBox_PageNumber'' page,
         Click ''SearchFormEx1_btnSearch'',
         Click ''DocList1_GridView_Document_ctl02_ButtonRow_Book_0'',
         Click ''TabController1_ImageViewertabitem'',
         SwitchWindow,
         GetCookies,
         ReadValue ''ImageViewer1_lblPageNum'',
         Glob (os_path_join (tmp_name env (clock w)) ''*.jpg''),
         PdfOutput (artifact_path od book page),
         RmTemp (tmp_name env (clock w))]
    \<and> outputs (snd (download_pdf env book page od w))
        = outputs w @ [(artifact_path od book page, [[]])]
    \<and> fst (main env book page od w) = Inr PyNone
    \<and> new_events (snd (download_pdf env book page od w)) (snd (main env book page od w))
        = [Print ''Success!'']"
proof -
  note run = zero_pages_run [OF assms, of book page od]
  have "main env book page od w =
      (Inr PyNone, (snd (download_pdf env book page od w))
         \<lparr>trace := trace (snd (download_pdf env book page od w)) @ [Print ''Success!'']\<rparr>)"
    unfolding main_def
    by (rule main_loop_success [OF _ run_pair [OF run(1)]]) (simp add: MAX_RETRIES_def)
  then show ?thesis
    using run by (simp add: new_events_def)
qed

theorem zero_pages_attempt_witness:
  "fst (download_pdf (sample_env ''Page 1 of 0'' (\<lambda>_. None)) 500 10 ''/home/user/deeds''
      sample_world) = Inr PyNone
   \<and> trace (snd (download_pdf (sample_env ''Page 1 of 0'' (\<lambda>_. None)) 500 10
        ''/home/user/deeds'' sample_world)) =
        [Print ''Trying to obtain Book 500 Page 10'',
         MkTemp ''/tmp/tmpq3x8k1a_'',
         BrowserNew ''/opt/deed_finder/chromedriver'',
         Visit ''http://titleview.org/plymouthdeeds/'',
         MouseOver ''Navigator1_SearchCriteria1_menuLabel'',
         Click ''Navigator1_SearchCriteria1_LinkButton02'',
         Fill ''SearchFormEx1$ACSTextBox_Book'' 500,
         Fill ''SearchFormEx1$ACSTextBox_PageNumber'' 10,
         Click ''SearchFormEx1_btnSearch'',
         Click ''DocList1_GridView_Document_ctl02_ButtonRow_Book_0'',
         Click ''TabController1_ImageViewertabitem'',
         SwitchWindow,
         GetCookies,
         ReadValue ''ImageViewer1_lblPageNum'',
         Glob ''/tmp/tmpq3x8k1a_/*.jpg'',
         PdfOutput ''/home/user/deeds/plymouth_cty_reg_deeds_book000500_page000010.pdf'',
         RmTemp ''/tmp/tmpq3x8k1a_'']
   \<and> outputs (snd (download_pdf (sample_env ''Page 1 of 0'' (\<lambda>_. None)) 500 10
        ''/home/user/deeds'' sample_world))
      = [(''/home/user/deeds/plymouth_cty_reg_deeds_book000500_page000010.pdf'', [[]])]
   \<and> fst (main (sample_env ''Page 1 of 0'' (\<lambda>_. None)) 500 10 ''/home/user/deeds''
        sample_world) = Inr PyNone"
  using zero_pages_attempt [of "sample_env ''Page 1 of 0'' (\<lambda>_. None)" sample_world 0 500 10
      "''/home/user/deeds''"] sample_no_faults sample_label_count(1)
  by (simp add: new_events_def sample_world_def sample_env_sel trying_line_def
      resource_path_def os_path_join_def suffix_to_prefix artifact_path_def pdf_name_500_10
      eval_strings)

text \<open>
  In the sample world, with the label \<^verbatim>\<open>Page 1 of 0\<close> and no call raising, the attempt returns
  and the one document it has written has one page, not none.
\<close>

theorem zero_pages_document_has_a_page:
  "fst (download_pdf (sample_env ''Page 1 of 0'' (\<lambda>_. None)) 500 10 ''/home/user/deeds''
      sample_world) = Inr PyNone
   \<and> map (\<lambda>written. length (snd written))
        (outputs (snd (download_pdf (sample_env ''Page 1 of 0'' (\<lambda>_. None)) 500 10
           ''/home/user/deeds'' sample_world))) = [1]
   \<and> map snd (outputs (snd (download_pdf (sample_env ''Page 1 of 0'' (\<lambda>_. None)) 500 10
           ''/home/user/deeds'' sample_world))) \<noteq> [[]]"
proof -
  let ?env = "sample_env ''Page 1 of 0'' (\<lambda>_. None)"
  have nf: "no_faults_from ?env (clock sample_world)"
    by (rule sample_no_faults)
  have N: "label_count ?env = Inr 0"
    by (rule sample_label_count)
  note run = zero_pages_run [OF nf N, of 500 10 "''/home/user/deeds''"]
  from run(1) run(3) show ?thesis
    by (simp add: sample_world_def)
qed

text \<open>
  C6. For book 500 and page 10 the document is named
  \<^verbatim>\<open>plymouth_cty_reg_deeds_book000500_page000010.pdf\<close>. The name is computed from the book and
  the page alone, and every attempt that returns has written one document, under this name,
  in the directory it was given.
\<close>

theorem artifact_name:
  "pdf_name 500 10 = ''plymouth_cty_reg_deeds_book000500_page000010.pdf''
   \<and> (download_pdf env book page output_dir w = (Inr v, w') \<longrightarrow>
        (\<exists>pdf. outputs w' = outputs w @ [(output_dir @ ''/'' @ pdf_name book page, pdf)]))"
  using download_pdf_Inr(2) [of env book page output_dir w v w']
  by (simp add: pdf_name_500_10 artifact_path_def)

theorem artifact_name_witness:
  "\<exists>pdf. outputs (snd (download_pdf (sample_env ''Page 1 of 2'' (\<lambda>_. None)) 500 10
       ''/home/user/deeds'' sample_world))
     = [(''/home/user/deeds/plymouth_cty_reg_deeds_book000500_page000010.pdf'', pdf)]"
proof -
  let ?env = "sample_env ''Page 1 of 2'' (\<lambda>_. None)"
  have "download_pdf ?env 500 10 ''/home/user/deeds'' sample_world
      = (Inr PyNone, snd (download_pdf ?env 500 10 ''/home/user/deeds'' sample_world))"
    by (rule run_pair) (rule sample_two_pages [OF sample_no_faults])
  with artifact_name [of ?env 500 10 "''/home/user/deeds''" sample_world PyNone
      "snd (download_pdf ?env 500 10 ''/home/user/deeds'' sample_world)"]
  obtain pdf where "outputs (snd (download_pdf ?env 500 10 ''/home/user/deeds'' sample_world))
      = outputs sample_world @ [(''/home/user/deeds'' @ ''/'' @ pdf_name 500 10, pdf)]"
    by blast
  then show ?thesis
    by (simp add: pdf_name_500_10 sample_world_def)
qed

text \<open>
  C4. An attempt that returns, returns \<^verbatim>\<open>None\<close>, not a path: the document it has written is
  found under the name of the book and page in the directory given. \<^verbatim>\<open>main\<close> then prints
  \<^verbatim>\<open>Success!\<close> and returns \<^verbatim>\<open>None\<close> as well, without another attempt.
\<close>

theorem successful_attempt_result:
  assumes "retries \<le> MAX_RETRIES" and "download_pdf env book page dd w = (Inr v, w1)"
  shows "v = PyNone
    \<and> (\<exists>pdf. outputs w1 = outputs w @ [(artifact_path dd book page, pdf)])
    \<and> main_loop env book page dd retries w
        = (Inr PyNone, w1\<lparr>trace := trace w1 @ [Print ''Success!'']\<rparr>)"
  using download_pdf_Inr [OF assms(2)] main_loop_success [OF assms] by simp

theorem successful_attempt_result_witness:
  "(\<exists>pdf. outputs (snd (download_pdf (sample_env ''Page 1 of 2'' (\<lambda>_. None)) 500 10
        ''/home/user/deeds'' sample_world))
      = [(''/home/user/deeds/plymouth_cty_reg_deeds_book000500_page000010.pdf'', pdf)])
   \<and> main_loop (sample_env ''Page 1 of 2'' (\<lambda>_. None)) 500 10 ''/home/user/deeds'' 0
        sample_world
      = (Inr PyNone,
         (snd (download_pdf (sample_env ''Page 1 of 2'' (\<lambda>_. None)) 500 10
            ''/home/user/deeds'' sample_world))
         \<lparr>trace := trace (snd (download_pdf (sample_env ''Page 1 of 2'' (\<lambda>_. None)) 500 10
            ''/home/user/deeds'' sample_world)) @ [Print ''Success!'']\<rparr>)"
proof -
  let ?env = "sample_env ''Page 1 of 2'' (\<lambda>_. None)"
  have "download_pdf ?env 500 10 ''/home/user/deeds'' sample_world
      = (Inr PyNone, snd (download_pdf ?env 500 10 ''/home/user/deeds'' sample_world))"
    by (rule run_pair) (rule sample_two_pages [OF sample_no_faults])
  from successful_attempt_result [OF _ this, of 0]
  have "(\<exists>pdf. outputs (snd (download_pdf ?env 500 10 ''/home/user/deeds'' sample_world))
        = outputs sample_world @ [(artifact_path ''/home/user/deeds'' 500 10, pdf)])
    \<and> main_loop ?env 500 10 ''/home/user/deeds'' 0 sample_world
        = (Inr PyNone, (snd (download_pdf ?env 500 10 ''/home/user/deeds'' sample_world))
           \<lparr>trace := trace (snd (download_pdf ?env 500 10 ''/home/user/deeds'' sample_world))
              @ [Print ''Success!'']\<rparr>)"
    by (simp add: MAX_RETRIES_def)
  then show ?thesis
    by (simp add: artifact_path_def pdf_name_500_10 sample_world_def)
qed

text \<open>
  In the sample world, with a record of two pages and no call raising, the attempt and
  \<^verbatim>\<open>main\<close> both return \<^verbatim>\<open>None\<close>, which is not the path of the document.
\<close>

theorem successful_run_returns_none:
  "fst (download_pdf (sample_env ''Page 1 of 2'' (\<lambda>_. None)) 500 10 ''/home/user/deeds''
      sample_world) = Inr PyNone
   \<and> fst (main (sample_env ''Page 1 of 2'' (\<lambda>_. None)) 500 10 ''/home/user/deeds''
      sample_world) = Inr PyNone
   \<and> fst (main (sample_env ''Page 1 of 2'' (\<lambda>_. None)) 500 10 ''/home/user/deeds''
      sample_world)
     \<noteq> Inr (PyStr ''/home/user/deeds/plymouth_cty_reg_deeds_book000500_page000010.pdf'')"
proof -
  let ?env = "sample_env ''Page 1 of 2'' (\<lambda>_. None)"
  have run: "fst (download_pdf ?env 500 10 ''/home/user/deeds'' sample_world) = Inr PyNone"
    by (rule sample_two_pages [OF sample_no_faults])
  have "fst (main ?env 500 10 ''/home/user/deeds'' sample_world) = Inr PyNone"
    unfolding main_def
    by (subst main_loop_success [OF _ run_pair [OF run]]) (simp_all add: MAX_RETRIES_def)
  with run show ?thesis
    by simp
qed


text \<open>
  C2. If the first \<open>k\<close> attempts raise, with \<open>k\<close> at most \<^verbatim>\<open>MAX_RETRIES\<close>, and the next one
  returns, \<^verbatim>\<open>main\<close> returns, having printed \<^verbatim>\<open>Success!\<close> once, after \<open>k + 1\<close> attempts and
  \<open>k\<close> error reports. If \<^verbatim>\<open>MAX_RETRIES + 1\<close> attempts raise one after the other, \<^verbatim>\<open>main\<close>
  raises the one \<^verbatim>\<open>ValueError\<close> of its last line in the state the last report has left:
  \<^verbatim>\<open>MAX_RETRIES + 1\<close> attempts have been made and \<^verbatim>\<open>Success!\<close> has not been printed. Which
  exceptions the attempts raise plays no part (\<open>failed_attempts\<close> does not look at them).
\<close>

theorem main_retry_law:
  "(int k \<le> MAX_RETRIES \<and> failed_attempts env book page dd k w = Some wk
      \<and> fst (download_pdf env book page dd wk) = Inr v \<longrightarrow>
        fst (main env book page dd w) = Inr PyNone
      \<and> count_list (new_events w (snd (main env book page dd w))) (Print ''Success!'') = 1
      \<and> count_list (new_events w (snd (main env book page dd w)))
          (Print (trying_line book page)) = k + 1
      \<and> count_list (new_events w (snd (main env book page dd w)))
          (Print ''Error! Retrying'') = k)
   \<and> (failed_attempts env book page dd (nat (MAX_RETRIES + 1)) w = Some wn \<longrightarrow>
        main env book page dd w =
          (Inl (Exn ValueError
             ''Unable to obtain document. Confirm the book and page numbers entered are valid''),
           wn)
      \<and> count_list (new_events w wn) (Print (trying_line book page)) = nat (MAX_RETRIES + 1)
      \<and> count_list (new_events w wn) (Print ''Error! Retrying'') = nat (MAX_RETRIES + 1)
      \<and> count_list (new_events w wn) (Print ''Success!'') = 0)"
proof (intro conjI impI)
  assume a: "int k \<le> MAX_RETRIES \<and> failed_attempts env book page dd k w = Some wk
      \<and> fst (download_pdf env book page dd wk) = Inr v"
  let ?w1 = "snd (download_pdf env book page dd wk)"
  let ?w' = "?w1\<lparr>trace := trace ?w1 @ [Print ''Success!'']\<rparr>"
  from a have k: "int k \<le> MAX_RETRIES" and fa: "failed_attempts env book page dd k w = Some wk"
    and ok: "fst (download_pdf env book page dd wk) = Inr v"
    by simp_all
  from ok have run: "download_pdf env book page dd wk = (Inr v, ?w1)"
    by (rule run_pair)
  have "main env book page dd w = main_loop env book page dd (0 + int k) wk"
    unfolding main_def using fa k by (intro main_loop_failed_attempts) simp_all
  also have "\<dots> = (Inr PyNone, ?w')"
    using k run by (intro main_loop_success) simp_all
  finally have main: "main env book page dd w = (Inr PyNone, ?w')" .
  from failed_attempts_lines [OF fa] obtain evs where evs: "trace wk = trace w @ evs"
    "count_list evs (Print (trying_line book page)) = k"
    "count_list evs (Print ''Success!'') = 0"
    "count_list evs (Print ''Error! Retrying'') = k"
    by blast
  from attempt_lines [OF run] obtain evs1 where evs1: "trace ?w1 = trace wk @ evs1"
    "count_list evs1 (Print (trying_line book page)) = 1"
    "count_list evs1 (Print ''Success!'') = 0"
    "count_list evs1 (Print ''Error! Retrying'') = 0"
    by blast
  have "trace ?w' = trace w @ (evs @ evs1 @ [Print ''Success!''])"
    using evs(1) evs1(1) by simp
  then have new: "new_events w (snd (main env book page dd w)) = evs @ evs1 @ [Print ''Success!'']"
    unfolding main by (simp add: new_events_append)
  show "fst (main env book page dd w) = Inr PyNone"
    unfolding main by simp
  show "count_list (new_events w (snd (main env book page dd w))) (Print ''Success!'') = 1"
    unfolding new count_list_append evs evs1 by simp
  show "count_list (new_events w (snd (main env book page dd w)))
      (Print (trying_line book page)) = k + 1"
    unfolding new count_list_append evs evs1 by (simp add: trying_line_def)
  show "count_list (new_events w (snd (main env book page dd w)))
      (Print ''Error! Retrying'') = k"
    unfolding new count_list_append evs evs1 by simp
next
  assume fa: "failed_attempts env book page dd (nat (MAX_RETRIES + 1)) w = Some wn"
  have "main env book page dd w
      = main_loop env book page dd (0 + int (nat (MAX_RETRIES + 1))) wn"
    unfolding main_def using fa by (intro main_loop_failed_attempts) (simp_all add: MAX_RETRIES_def)
  also have "\<dots> = (Inl (Exn ValueError
      ''Unable to obtain document. Confirm the book and page numbers entered are valid''), wn)"
    by (intro main_loop_exhausted) (simp add: MAX_RETRIES_def)
  finally show "main env book page dd w = (Inl (Exn ValueError
      ''Unable to obtain document. Confirm the book and page numbers entered are valid''), wn)" .
  from failed_attempts_lines [OF fa] obtain evs where evs: "trace wn = trace w @ evs"
    "count_list evs (Print (trying_line book page)) = nat (MAX_RETRIES + 1)"
    "count_list evs (Print ''Success!'') = 0"
    "count_list evs (Print ''Error! Retrying'') = nat (MAX_RETRIES + 1)"
    by blast
  from evs(1) have new: "new_events w wn = evs"
    by (rule new_events_append)
  show "count_list (new_events w wn) (Print (trying_line book page)) = nat (MAX_RETRIES + 1)"
    unfolding new by (rule evs(2))
  show "count_list (new_events w wn) (Print ''Error! Retrying'') = nat (MAX_RETRIES + 1)"
    unfolding new by (rule evs(4))
  show "count_list (new_events w wn) (Print ''Success!'') = 0"
    unfolding new by (rule evs(3))
qed

text \<open>
  Two runs in the sample world. In the first the creation of the temporary directory raises
  in the first attempt, and nothing raises afterwards. In the second every call raises, with
  another kind of exception in each attempt.
\<close>

theorem main_retry_law_witness:
  "fst (main (sample_env ''Page 1 of 2''
          (\<lambda>k. if k = 0 then Some (Exn OSError ''No space left on device'') else None))
        500 10 ''/home/user/deeds'' sample_world) = Inr PyNone
   \<and> count_list (new_events sample_world (snd (main (sample_env ''Page 1 of 2''
          (\<lambda>k. if k = 0 then Some (Exn OSError ''No space left on device'') else None))
        500 10 ''/home/user/deeds'' sample_world))) (Print ''Success!'') = 1
   \<and> count_list (new_events sample_world (snd (main (sample_env ''Page 1 of 2''
          (\<lambda>k. if k = 0 then Some (Exn OSError ''No space left on device'') else None))
        500 10 ''/home/user/deeds'' sample_world))) (Print (trying_line 500 10)) = 2
   \<and> fst (main (sample_env ''Page 1 of 2''
          (\<lambda>k. Some (Exn (if k = 0 then OSError else if k = 1 then WebDriverException
                           else ConnectionError) ''unavailable'')))
        500 10 ''/home/user/deeds'' sample_world)
      = Inl (Exn ValueError
          ''Unable to obtain document. Confirm the book and page numbers entered are valid'')
   \<and> count_list (new_events sample_world (snd (main (sample_env ''Page 1 of 2''
          (\<lambda>k. Some (Exn (if k = 0 then OSError else if k = 1 then WebDriverException
                           else ConnectionError) ''unavailable'')))
        500 10 ''/home/user/deeds'' sample_world))) (Print (trying_line 500 10)) = 3"
proof -
  let ?f1 = "\<lambda>k::nat. if k = 0 then Some (Exn OSError ''No space left on device'') else None"
  let ?f2 = "\<lambda>k::nat. Some (Exn (if k = 0 then OSError else if k = 1 then WebDriverException
                           else ConnectionError) ''unavailable'')"
  let ?env1 = "sample_env ''Page 1 of 2'' ?f1"
  let ?env2 = "sample_env ''Page 1 of 2'' ?f2"
  let ?dd = "''/home/user/deeds''"
  have start: "download_pdf (sample_env l f) 500 10 ?dd w
      = (Inl e, w\<lparr>clock := Suc (clock w), trace := trace w @ [Print (trying_line 500 10)]\<rparr>)"
    if "f (clock w) = Some e" for l f w e
    using that by (intro download_pdf_fault_at_start) (simp add: sample_env_sel)
  define wk where "wk = report_error (Exn OSError ''No space left on device'')
      (sample_world\<lparr>clock := Suc 0, trace := [Print (trying_line 500 10)]\<rparr>)"
  have "download_pdf ?env1 500 10 ?dd sample_world = (Inl (Exn OSError ''No space left on device''),
      sample_world\<lparr>clock := Suc 0, trace := [Print (trying_line 500 10)]\<rparr>)"
    by (subst start [of ?f1 sample_world "Exn OSError ''No space left on device''"])
       (simp_all add: sample_world_def)
  then have fa1: "failed_attempts ?env1 500 10 ?dd 1 sample_world = Some wk"
    by (simp add: wk_def)
  have "no_faults_from ?env1 (clock wk)"
    by (simp add: no_faults_from_def sample_env_sel wk_def report_error_def)
  then have ok: "fst (download_pdf ?env1 500 10 ?dd wk) = Inr PyNone"
    by (rule sample_two_pages)
  define w1 where "w1 = report_error (Exn OSError ''unavailable'')
      (sample_world\<lparr>clock := Suc 0, trace := [Print (trying_line 500 10)]\<rparr>)"
  define w2 where "w2 = report_error (Exn WebDriverException ''unavailable'')
      (w1\<lparr>clock := Suc (Suc 0), trace := trace w1 @ [Print (trying_line 500 10)]\<rparr>)"
  define w3 where "w3 = report_error (Exn ConnectionError ''unavailable'')
      (w2\<lparr>clock := Suc (Suc (Suc 0)), trace := trace w2 @ [Print (trying_line 500 10)]\<rparr>)"
  have clocks: "clock sample_world = 0" "clock w1 = 1" "clock w2 = 2"
    by (simp_all add: sample_world_def w1_def w2_def report_error_def)
  have 1: "download_pdf ?env2 500 10 ?dd sample_world = (Inl (Exn OSError ''unavailable''),
      sample_world\<lparr>clock := Suc 0, trace := [Print (trying_line 500 10)]\<rparr>)"
    by (subst start [of ?f2 sample_world "Exn OSError ''unavailable''"])
       (simp_all add: sample_world_def)
  have 2: "download_pdf ?env2 500 10 ?dd w1 = (Inl (Exn WebDriverException ''unavailable''),
      w1\<lparr>clock := Suc (Suc 0), trace := trace w1 @ [Print (trying_line 500 10)]\<rparr>)"
    by (subst start [of ?f2 w1 "Exn WebDriverException ''unavailable''"])
       (simp_all add: clocks)
  have 3: "download_pdf ?env2 500 10 ?dd w2 = (Inl (Exn ConnectionError ''unavailable''),
      w2\<lparr>clock := Suc (Suc (Suc 0)), trace := trace w2 @ [Print (trying_line 500 10)]\<rparr>)"
    by (subst start [of ?f2 w2 "Exn ConnectionError ''unavailable''"])
       (simp_all add: clocks)
  have fa2: "failed_attempts ?env2 500 10 ?dd (nat (MAX_RETRIES + 1)) sample_world = Some w3"
    by (simp add: MAX_RETRIES_def numeral_3_eq_3 1 2 3 w1_def [symmetric] w2_def [symmetric]
        w3_def [symmetric])
  from main_retry_law [of 1 ?env1 500 10 ?dd sample_world wk PyNone]
  have first: "fst (main ?env1 500 10 ?dd sample_world) = Inr PyNone
      \<and> count_list (new_events sample_world (snd (main ?env1 500 10 ?dd sample_world)))
          (Print ''Success!'') = 1
      \<and> count_list (new_events sample_world (snd (main ?env1 500 10 ?dd sample_world)))
          (Print (trying_line 500 10)) = 2"
    using fa1 ok by (simp add: MAX_RETRIES_def)
  from main_retry_law [of _ ?env2 500 10 ?dd _ _ _ w3]
  have second: "main ?env2 500 10 ?dd sample_world = (Inl (Exn ValueError
        ''Unable to obtain document. Confirm the book and page numbers entered are valid''), w3)
      \<and> count_list (new_events sample_world w3) (Print (trying_line 500 10)) = 3"
    using fa2 by (simp add: MAX_RETRIES_def)
  from first second show ?thesis
    by simp
qed


section \<open>An attempt that fails while the pages are fetched\<close>



section \<open>Claims about what an attempt leaves behind\<close>





section \<open>A record of 100 pages\<close>








section \<open>Claim about the order of the pages\<close>



section \<open>The order of the calls of \<^verbatim>\<open>_create_pdf\<close>\<close>












section \<open>Claim about the order of the deletions and the writing\<close>





end
